theory Spec2Isabelle
  imports Main "HOL-Library.Word" "HOL-Library.Sublist"
begin

section \<open>Data of the driver (main.cpp)\<close>

text \<open>
  The driver works on remote-process virtual addresses held in \<^verbatim>\<open>std::uintptr_t\<close>.
  The tool reads amd64 processes, so the build is a 64-bit one and an address is a
  64-bit word: \<open>+\<close> and \<open>-\<close> wrap around as the unsigned C++ arithmetic does.
\<close>

type_synonym addr = "64 word"
type_synonym byte = "8 word"

text \<open>
  One element of \<^verbatim>\<open>mapped_image->exports()\<close>. The loop binds it as
  \<^verbatim>\<open>[export_name, export_va, _]\<close>; the third component is never read and is left out.
  \<open>export_va\<close> is the value the comparison \<^verbatim>\<open>possible_import_va == export_va\<close>
  sees, that is after the conversion to \<^verbatim>\<open>std::uintptr_t\<close>.
\<close>

record export_entry =
  export_name :: string
  export_va :: addr

text \<open>
  One element of \<^verbatim>\<open>*mapped_modules\<close>, bound as
  \<^verbatim>\<open>[pe, remote_image_base, module_name]\<close>; \<open>pe_exports\<close> is
  \<^verbatim>\<open>pe->image()->exports()\<close> in enumeration order (the source's \<^verbatim>\<open>module_name\<close>
  is a reserved word here, hence \<open>mapped_module_name\<close>).
\<close>

record mapped_module =
  pe_exports :: "export_entry list"
  remote_image_base :: addr
  mapped_module_name :: string

text \<open>
  One element of \<^verbatim>\<open>vmp::context->imports\<close>. The driver reads only
  \<open>import_address\<close>; the call-site field carries the name of the data model.
\<close>

record import_t =
  call_site_va :: addr
  import_address :: addr

section \<open>The IAT rebuild loop (main.cpp, lines 194 to 223)\<close>

text \<open>
  The innermost loop over the exports of one module. The state is the flag \<open>found\<close>
  and the \<^verbatim>\<open>iat\<close> object; \<open>add_import\<close> stands for \<^verbatim>\<open>iat.add_import\<close>, whose
  body is not part of the driver. The body first tests the address, then the flag.
\<close>

fun exports_loop ::
  "(string \<Rightarrow> string \<Rightarrow> 'i \<Rightarrow> 'i) \<Rightarrow> string \<Rightarrow> addr \<Rightarrow> export_entry list \<Rightarrow> bool \<times> 'i \<Rightarrow> bool \<times> 'i"
where
  "exports_loop add_import mname possible_import_va [] st = st"
| "exports_loop add_import mname possible_import_va (e # es) st =
     (let st1 = (if possible_import_va = export_va e
                 then (True, add_import mname (export_name e) (snd st))
                 else st)
      in if fst st1 then st1
         else exports_loop add_import mname possible_import_va es st1)"

text \<open>The loop over the mapped modules, with the wrapping subtraction of the base.\<close>

fun modules_loop ::
  "(string \<Rightarrow> string \<Rightarrow> 'i \<Rightarrow> 'i) \<Rightarrow> addr \<Rightarrow> mapped_module list \<Rightarrow> bool \<times> 'i \<Rightarrow> bool \<times> 'i"
where
  "modules_loop add_import target [] st = st"
| "modules_loop add_import target (m # ms) st =
     (let possible_import_va = target - remote_image_base m;
          st1 = exports_loop add_import (mapped_module_name m) possible_import_va (pe_exports m) st
      in if fst st1 then st1
         else modules_loop add_import target ms st1)"

text \<open>The body of the outer loop for one import: \<open>found\<close> starts as false.\<close>

definition import_step ::
  "(string \<Rightarrow> string \<Rightarrow> 'i \<Rightarrow> 'i) \<Rightarrow> mapped_module list \<Rightarrow> import_t \<Rightarrow> 'i \<Rightarrow> 'i"
where
  "import_step add_import mods imp iat =
     snd (modules_loop add_import (import_address imp) mods (False, iat))"

text \<open>The outer loop over \<^verbatim>\<open>vmp::context->imports\<close>.\<close>

fun iat_rebuild ::
  "(string \<Rightarrow> string \<Rightarrow> 'i \<Rightarrow> 'i) \<Rightarrow> mapped_module list \<Rightarrow> import_t list \<Rightarrow> 'i \<Rightarrow> 'i"
where
  "iat_rebuild add_import mods [] iat = iat"
| "iat_rebuild add_import mods (imp # imps) iat =
     iat_rebuild add_import mods imps (import_step add_import mods imp iat)"

text \<open>
  The \<^verbatim>\<open>iat\<close> object seen from the driver: the sequence of
  \<^verbatim>\<open>add_import (module_name, export_name)\<close> calls made on it so far.
\<close>

type_synonym iat_calls = "(string \<times> string) list"

definition log_import :: "string \<Rightarrow> string \<Rightarrow> iat_calls \<Rightarrow> iat_calls" where
  "log_import mname ename iat = iat @ [(mname, ename)]"

section \<open>The tie-break rule in the words of the specification\<close>

text \<open>
  An export matches a target address when the target minus the module's base equals
  the export's relative address.
\<close>

definition export_matches :: "mapped_module \<Rightarrow> addr \<Rightarrow> export_entry \<Rightarrow> bool" where
  "export_matches m target e = (target - remote_image_base m = export_va e)"

definition module_matches :: "addr \<Rightarrow> mapped_module \<Rightarrow> bool" where
  "module_matches target m = list_ex (export_matches m target) (pe_exports m)"

text \<open>
  The resolved pair: the first module in enumeration order that has a matching export,
  and the first matching export within it.
\<close>

definition first_match :: "mapped_module list \<Rightarrow> addr \<Rightarrow> (string \<times> string) option" where
  "first_match mods target =
     (case List.find (module_matches target) mods of
        None \<Rightarrow> None
      | Some m \<Rightarrow>
          (case List.find (export_matches m target) (pe_exports m) of
             None \<Rightarrow> None
           | Some e \<Rightarrow> Some (mapped_module_name m, export_name e)))"

text \<open>A record is unresolved when its target matches no export of any mapped module.\<close>

definition unresolved :: "mapped_module list \<Rightarrow> import_t \<Rightarrow> bool" where
  "unresolved mods imp =
     list_all (\<lambda>m. list_all (\<lambda>e. \<not> export_matches m (import_address imp) e) (pe_exports m)) mods"

section \<open>The driver (main.cpp, function main)\<close>

text \<open>
  The collaborators of the driver are not part of it: the argument and configuration
  parsers, the process (\<^verbatim>\<open>win_process_t\<close>), the image reader
  (\<^verbatim>\<open>portable_executable\<close>) and the \<^verbatim>\<open>vmp\<close> stages. They are the fields of
  an environment, one per call the driver makes, each giving what the call does.
  The argument parser, the process and the image reader are taken at their interface:
  they report a failure through their result, which the driver tests: a false result,
  an absent section, the error side of an \<^verbatim>\<open>std::expected\<close> (a sum with the error
  on the left). The configuration parser and the \<^verbatim>\<open>vmp\<close> stages report a failure
  by an exception.
\<close>

datatype exit_code = EXIT_SUCCESS | EXIT_FAILURE

text \<open>
  A call of \<^verbatim>\<open>parse_toml\<close> or of a \<^verbatim>\<open>vmp\<close> stage returns, or throws an exception
  derived from \<^verbatim>\<open>std::exception\<close> (with its \<^verbatim>\<open>what()\<close>), or throws anything else.
  The handlers of the driver are all \<^verbatim>\<open>catch (std::exception&)\<close>, so only the second
  is caught, and only inside a \<^verbatim>\<open>try\<close>.
\<close>

datatype 'a outcome = Returns 'a | Throws string | ThrowsOther

text \<open>
  How a run ends: \<^verbatim>\<open>main\<close> returns an exit code, or an exception leaves \<^verbatim>\<open>main\<close>
  uncaught and the process ends in \<^verbatim>\<open>std::terminate\<close>, with no exit code of \<^verbatim>\<open>main\<close>.
\<close>

datatype ending = Returned exit_code | Terminated

datatype machine_id_t = amd64 | i386 | other_machine nat

text \<open>
  The fields of \<^verbatim>\<open>config_ctx\<close> that the driver reads; its \<^verbatim>\<open>module_name\<close> is
  \<open>target_module_name\<close> here.
\<close>

record config_context =
  process_name :: string
  target_module_name :: string
  vmp_sections :: "string list"
  iat_section_name :: string
  dump_path :: string

text \<open>The module found in the process: \<^verbatim>\<open>module->path\<close>, \<^verbatim>\<open>->address\<close>, \<^verbatim>\<open>->size\<close> (\<open>module_size\<close>).\<close>

record module_t =
  path :: string
  address :: addr
  module_size :: addr

record section_header_t =
  virtual_size :: "32 word"
  virtual_address :: "32 word"

text \<open>The image of the file loaded from disk: its machine field and its section lookup.\<close>

record image_t =
  machine :: machine_id_t
  find_section :: "string \<Rightarrow> section_header_t option"

type_synonym section_buffers = "(addr \<times> byte list) list"

record env =
  arg_parser_parse :: "string list \<Rightarrow> string + string"
  parse_toml :: "string \<Rightarrow> config_context outcome"
  find_process_id :: "string \<Rightarrow> string + nat"
  attach :: "nat \<Rightarrow> bool"
  find_module :: "nat \<Rightarrow> string \<Rightarrow> string + module_t"
  file_load :: "string \<Rightarrow> image_t option"
  construct_context :: "bool \<Rightarrow> unit outcome"
  compute_sections :: "string list \<Rightarrow> addr \<Rightarrow> image_t \<Rightarrow> unit outcome"
  read :: "addr \<Rightarrow> nat \<Rightarrow> byte list option"
  scan_import_calls :: "addr \<Rightarrow> byte list \<Rightarrow> addr list outcome"
  map_sections :: "section_buffers \<Rightarrow> unit outcome"
  process_import_calls :: "addr list \<Rightarrow> addr \<Rightarrow> import_t list outcome"
  modules_local_mapped :: "nat \<Rightarrow> string + mapped_module list"
  construct_iat :: "unit outcome"
  iat_add_import :: "iat_calls \<Rightarrow> string \<Rightarrow> string \<Rightarrow> unit outcome"
  construct_image :: "addr \<Rightarrow> unit outcome"
  initialize_memory_pe :: "addr \<Rightarrow> addr \<Rightarrow> unit outcome"
  reconstruct :: "iat_calls \<Rightarrow> string \<Rightarrow> unit outcome"
  dump_to_fs :: "string \<Rightarrow> unit outcome"

text \<open>
  \<open>process_import_calls\<close> gives, when it returns, \<^verbatim>\<open>vmp::context->imports\<close> as the
  rebuild loop then reads it. \<open>file_load\<close> is \<^verbatim>\<open>file.load()\<close> followed by
  \<^verbatim>\<open>file.image()\<close>: \<open>None\<close> when the load fails. \<open>construct_iat\<close> and
  \<open>construct_image\<close> are the constructors of \<^verbatim>\<open>vmp::iat_t\<close> (line 192) and of
  \<^verbatim>\<open>vmp::image_t\<close> (line 225). \<open>iat_add_import\<close> is \<^verbatim>\<open>iat.add_import\<close>; it takes first the \<^verbatim>\<open>iat\<close> object it is
  called on, that is the calls made on it before.
\<close>

text \<open>
  What a run does is the sequence of the calls it makes on its collaborators, each with
  its arguments and its outcome: \<open>True\<close> when the call returned a value, \<open>False\<close> when
  it failed (a false result, an error value or an exception).
\<close>

datatype call =
    Attach nat
  | FindModule string
  | FileLoad string
  | ConstructContext bool
  | ComputeSections "string list" addr image_t
  | Read addr nat
  | ScanImportCalls addr "byte list"
  | MapSections section_buffers
  | ProcessImportCalls "addr list" addr
  | ModulesLocalMapped nat
  | ConstructIat
  | AddImport iat_calls string string
  | ConstructImage addr
  | InitializeMemoryPe addr addr
  | Reconstruct iat_calls string
  | DumpToFs string

type_synonym event = "call \<times> bool"
type_synonym run = "ending \<times> event list"

text \<open>The driver logs nothing more and returns \<^verbatim>\<open>EXIT_FAILURE\<close>.\<close>

definition failed :: run where
  "failed = (Returned EXIT_FAILURE, [])"

text \<open>An exception leaves \<^verbatim>\<open>main\<close>: nothing more is called.\<close>

definition terminated :: run where
  "terminated = (Terminated, [])"

text \<open>\<open>after evs r\<close>: the calls \<open>evs\<close> happen, then the run goes on as \<open>r\<close>.\<close>

definition after :: "event list \<Rightarrow> run \<Rightarrow> run" where
  "after evs r = (fst r, evs @ snd r)"

text \<open>
  Lines 225 to 242: the constructor of the output image, outside the \<^verbatim>\<open>try\<close>; then
  the three calls inside one \<^verbatim>\<open>try\<close>.
\<close>

definition output_stage :: "env \<Rightarrow> config_context \<Rightarrow> module_t \<Rightarrow> iat_calls \<Rightarrow> run" where
  "output_stage e cfg m iat =
     (case construct_image e (address m) of
        Throws what \<Rightarrow> after [(ConstructImage (address m), False)] terminated
      | ThrowsOther \<Rightarrow> after [(ConstructImage (address m), False)] terminated
      | Returns u0 \<Rightarrow> after [(ConstructImage (address m), True)]
     (case initialize_memory_pe e (address m) (module_size m) of
        Throws what \<Rightarrow> after [(InitializeMemoryPe (address m) (module_size m), False)] failed
      | ThrowsOther \<Rightarrow> after [(InitializeMemoryPe (address m) (module_size m), False)] terminated
      | Returns u1 \<Rightarrow> after [(InitializeMemoryPe (address m) (module_size m), True)]
     (case reconstruct e iat (iat_section_name cfg) of
        Throws what \<Rightarrow> after [(Reconstruct iat (iat_section_name cfg), False)] failed
      | ThrowsOther \<Rightarrow> after [(Reconstruct iat (iat_section_name cfg), False)] terminated
      | Returns u2 \<Rightarrow> after [(Reconstruct iat (iat_section_name cfg), True)]
     (case dump_to_fs e (dump_path cfg) of
        Throws what \<Rightarrow> after [(DumpToFs (dump_path cfg), False)] failed
      | ThrowsOther \<Rightarrow> after [(DumpToFs (dump_path cfg), False)] terminated
      | Returns u3 \<Rightarrow> after [(DumpToFs (dump_path cfg), True)] (Returned EXIT_SUCCESS, [])))))"

text \<open>
  The rebuild loop of lines 194 to 223 once more, now with an \<^verbatim>\<open>add_import\<close> that may
  throw: \<open>Inl\<close> is the exception, which leaves both inner loops and the outer loop at
  once. It is the loop of \<open>exports_loop\<close>, \<open>modules_loop\<close> and \<open>iat_rebuild\<close> otherwise.
\<close>

fun exports_loop_x ::
  "(string \<Rightarrow> string \<Rightarrow> 'i \<Rightarrow> 'x + 'i) \<Rightarrow> string \<Rightarrow> addr \<Rightarrow> export_entry list \<Rightarrow> bool \<times> 'i
     \<Rightarrow> 'x + bool \<times> 'i"
where
  "exports_loop_x add_import mname possible_import_va [] st = Inr st"
| "exports_loop_x add_import mname possible_import_va (ex # es) st =
     (case (if possible_import_va = export_va ex
            then (case add_import mname (export_name ex) (snd st) of
                    Inl x \<Rightarrow> Inl x
                  | Inr iat \<Rightarrow> Inr (True, iat))
            else Inr st) of
        Inl x \<Rightarrow> Inl x
      | Inr st1 \<Rightarrow>
          if fst st1 then Inr st1
          else exports_loop_x add_import mname possible_import_va es st1)"

fun modules_loop_x ::
  "(string \<Rightarrow> string \<Rightarrow> 'i \<Rightarrow> 'x + 'i) \<Rightarrow> addr \<Rightarrow> mapped_module list \<Rightarrow> bool \<times> 'i
     \<Rightarrow> 'x + bool \<times> 'i"
where
  "modules_loop_x add_import target [] st = Inr st"
| "modules_loop_x add_import target (m # ms) st =
     (let possible_import_va = target - remote_image_base m
      in case exports_loop_x add_import (mapped_module_name m) possible_import_va (pe_exports m) st of
           Inl x \<Rightarrow> Inl x
         | Inr st1 \<Rightarrow>
             if fst st1 then Inr st1
             else modules_loop_x add_import target ms st1)"

definition import_step_x ::
  "(string \<Rightarrow> string \<Rightarrow> 'i \<Rightarrow> 'x + 'i) \<Rightarrow> mapped_module list \<Rightarrow> import_t \<Rightarrow> 'i \<Rightarrow> 'x + 'i"
where
  "import_step_x add_import mods imp iat =
     (case modules_loop_x add_import (import_address imp) mods (False, iat) of
        Inl x \<Rightarrow> Inl x
      | Inr st \<Rightarrow> Inr (snd st))"

fun iat_rebuild_x ::
  "(string \<Rightarrow> string \<Rightarrow> 'i \<Rightarrow> 'x + 'i) \<Rightarrow> mapped_module list \<Rightarrow> import_t list \<Rightarrow> 'i \<Rightarrow> 'x + 'i"
where
  "iat_rebuild_x add_import mods [] iat = Inr iat"
| "iat_rebuild_x add_import mods (imp # imps) iat =
     (case import_step_x add_import mods imp iat of
        Inl x \<Rightarrow> Inl x
      | Inr iat1 \<Rightarrow> iat_rebuild_x add_import mods imps iat1)"

text \<open>
  \<^verbatim>\<open>iat.add_import\<close> as the driver sees it: the state is the log of the calls of the
  loop so far and the \<^verbatim>\<open>iat\<close> object; the call is logged, and an exception of either
  kind gives the log up to the call that threw.
\<close>

definition driver_add_import ::
  "env \<Rightarrow> string \<Rightarrow> string \<Rightarrow> event list \<times> iat_calls \<Rightarrow> event list + event list \<times> iat_calls"
where
  "driver_add_import e mname ename st =
     (case iat_add_import e (snd st) mname ename of
        Returns u \<Rightarrow> Inr (fst st @ [(AddImport (snd st) mname ename, True)],
                            log_import mname ename (snd st))
      | Throws what \<Rightarrow> Inl (fst st @ [(AddImport (snd st) mname ename, False)])
      | ThrowsOther \<Rightarrow> Inl (fst st @ [(AddImport (snd st) mname ename, False)]))"

text \<open>
  Lines 181 to 223: the mapped modules, the constructor of \<^verbatim>\<open>iat\<close>, then the rebuild
  loop. Neither the constructor nor the loop is inside a \<^verbatim>\<open>try\<close>.
\<close>

definition iat_stage :: "env \<Rightarrow> config_context \<Rightarrow> nat \<Rightarrow> module_t \<Rightarrow> import_t list \<Rightarrow> run" where
  "iat_stage e cfg pid m imports =
     (case modules_local_mapped e pid of
        Inl err \<Rightarrow> after [(ModulesLocalMapped pid, False)] failed
      | Inr mapped_modules \<Rightarrow> after [(ModulesLocalMapped pid, True)]
     (case construct_iat e of
        Throws what \<Rightarrow> after [(ConstructIat, False)] terminated
      | ThrowsOther \<Rightarrow> after [(ConstructIat, False)] terminated
      | Returns u \<Rightarrow> after [(ConstructIat, True)]
     (case iat_rebuild_x (driver_add_import e) mapped_modules imports ([], []) of
        Inl evs \<Rightarrow> after evs terminated
      | Inr st \<Rightarrow> after (fst st) (output_stage e cfg m (snd st)))))"

text \<open>Lines 169 to 179: both calls inside one \<^verbatim>\<open>try\<close>.\<close>

definition resolve_stage ::
  "env \<Rightarrow> config_context \<Rightarrow> nat \<Rightarrow> module_t \<Rightarrow> addr list \<Rightarrow> section_buffers \<Rightarrow> run"
where
  "resolve_stage e cfg pid m import_calls bufs =
     (case map_sections e bufs of
        Throws what \<Rightarrow> after [(MapSections bufs, False)] failed
      | ThrowsOther \<Rightarrow> after [(MapSections bufs, False)] terminated
      | Returns u \<Rightarrow> after [(MapSections bufs, True)]
     (case process_import_calls e import_calls (address m) of
        Throws what \<Rightarrow> after [(ProcessImportCalls import_calls (address m), False)] failed
      | ThrowsOther \<Rightarrow> after [(ProcessImportCalls import_calls (address m), False)] terminated
      | Returns imports \<Rightarrow> after [(ProcessImportCalls import_calls (address m), True)]
          (iat_stage e cfg pid m imports)))"

text \<open>
  Lines 144 to 167: the loop over \<^verbatim>\<open>config_ctx.vmp_sections\<close>. It gives the calls it
  made and, unless it returned \<^verbatim>\<open>EXIT_FAILURE\<close>, the grown \<^verbatim>\<open>map_sections\<close> vector.
\<close>

fun read_sections ::
  "env \<Rightarrow> module_t \<Rightarrow> image_t \<Rightarrow> string list \<Rightarrow> section_buffers \<Rightarrow> event list \<times> section_buffers option"
where
  "read_sections e m img [] bufs = ([], Some bufs)"
| "read_sections e m img (vmp_section # rest) bufs =
     (case find_section img vmp_section of
        None \<Rightarrow> ([], None)
      | Some section_header \<Rightarrow>
          (let n = unat (virtual_size section_header);
               a = address m + ucast (virtual_address section_header)
           in case read e a n of
                None \<Rightarrow> ([(Read a n, False)], None)
              | Some temp_buffer \<Rightarrow>
                  (let r = read_sections e m img rest (bufs @ [(a, temp_buffer)])
                   in ((Read a n, True) # fst r, snd r))))"

text \<open>
  Lines 114 to 167: the text section is read and scanned, then the other sections are
  read. The call of the scanner (line 139) is outside every \<^verbatim>\<open>try\<close>.
\<close>

definition read_stage :: "env \<Rightarrow> config_context \<Rightarrow> nat \<Rightarrow> module_t \<Rightarrow> image_t \<Rightarrow> run" where
  "read_stage e cfg pid m img =
     (case find_section img ''.text'' of
        None \<Rightarrow> failed
      | Some text_section \<Rightarrow>
          (let n = unat (virtual_size text_section);
               a = address m + ucast (virtual_address text_section)
           in case read e a n of
                None \<Rightarrow> after [(Read a n, False)] failed
              | Some temp_buffer \<Rightarrow> after [(Read a n, True)]
                  (case scan_import_calls e a temp_buffer of
                     Throws what \<Rightarrow> after [(ScanImportCalls a temp_buffer, False)] terminated
                   | ThrowsOther \<Rightarrow> after [(ScanImportCalls a temp_buffer, False)] terminated
                   | Returns import_calls \<Rightarrow>
                       (let r = read_sections e m img (vmp_sections cfg) [(a, temp_buffer)]
                        in after ((ScanImportCalls a temp_buffer, True) # fst r)
                             (case snd r of
                                None \<Rightarrow> failed
                              | Some bufs \<Rightarrow> resolve_stage e cfg pid m import_calls bufs)))))"

text \<open>Lines 101 to 112: both calls inside one \<^verbatim>\<open>try\<close>.\<close>

definition context_stage :: "env \<Rightarrow> config_context \<Rightarrow> nat \<Rightarrow> module_t \<Rightarrow> image_t \<Rightarrow> bool \<Rightarrow> run" where
  "context_stage e cfg pid m img is_x64 =
     (case construct_context e is_x64 of
        Throws what \<Rightarrow> after [(ConstructContext is_x64, False)] failed
      | ThrowsOther \<Rightarrow> after [(ConstructContext is_x64, False)] terminated
      | Returns u \<Rightarrow> after [(ConstructContext is_x64, True)]
     (case compute_sections e (vmp_sections cfg) (address m) img of
        Throws what \<Rightarrow> after [(ComputeSections (vmp_sections cfg) (address m) img, False)] failed
      | ThrowsOther \<Rightarrow> after [(ComputeSections (vmp_sections cfg) (address m) img, False)] terminated
      | Returns u' \<Rightarrow> after [(ComputeSections (vmp_sections cfg) (address m) img, True)]
          (read_stage e cfg pid m img)))"

text \<open>Lines 82 to 99: the switch on the machine field of the loaded file.\<close>

definition machine_switch :: "env \<Rightarrow> config_context \<Rightarrow> nat \<Rightarrow> module_t \<Rightarrow> image_t \<Rightarrow> run" where
  "machine_switch e cfg pid m img =
     (case machine img of
        amd64 \<Rightarrow> context_stage e cfg pid m img True
      | i386 \<Rightarrow> context_stage e cfg pid m img False
      | other_machine k \<Rightarrow> failed)"

text \<open>
  Lines 24 to 80: arguments, configuration, process, module and file. It gives the calls
  made and then, on the left, how the run ended there (\<^verbatim>\<open>EXIT_FAILURE\<close>, or
  \<^verbatim>\<open>std::terminate\<close> when \<^verbatim>\<open>parse_toml\<close> throws what its handler does not catch) or,
  on the right, what the later lines use.
\<close>

definition startup ::
  "env \<Rightarrow> string list \<Rightarrow>
     event list \<times> (ending + config_context \<times> nat \<times> module_t \<times> image_t)"
where
  "startup e argv =
     (case arg_parser_parse e argv of
        Inl err \<Rightarrow> ([], Inl (Returned EXIT_FAILURE))
      | Inr arg_parser_ctx \<Rightarrow>
     (case parse_toml e arg_parser_ctx of
        Throws what \<Rightarrow> ([], Inl (Returned EXIT_FAILURE))
      | ThrowsOther \<Rightarrow> ([], Inl Terminated)
      | Returns cfg \<Rightarrow>
     (case find_process_id e (process_name cfg) of
        Inl err \<Rightarrow> ([], Inl (Returned EXIT_FAILURE))
      | Inr pid \<Rightarrow>
     (if \<not> attach e pid then ([(Attach pid, False)], Inl (Returned EXIT_FAILURE))
      else
     (case find_module e pid (target_module_name cfg) of
        Inl err \<Rightarrow> ([(Attach pid, True), (FindModule (target_module_name cfg), False)],
                      Inl (Returned EXIT_FAILURE))
      | Inr m \<Rightarrow>
     (case file_load e (path m) of
        None \<Rightarrow> ([(Attach pid, True), (FindModule (target_module_name cfg), True),
                    (FileLoad (path m), False)], Inl (Returned EXIT_FAILURE))
      | Some img \<Rightarrow> ([(Attach pid, True), (FindModule (target_module_name cfg), True),
                         (FileLoad (path m), True)], Inr (cfg, pid, m, img))))))))"

definition main :: "env \<Rightarrow> string list \<Rightarrow> run" where
  "main e argv =
     (case startup e argv of
        (evs, Inl stopped) \<Rightarrow> after evs (stopped, [])
      | (evs, Inr (cfg, pid, m, img)) \<Rightarrow> after evs (machine_switch e cfg pid m img))"

section \<open>Observing a run\<close>

text \<open>The name of a call, without its arguments.\<close>

datatype call_name =
    Attach_call | FindModule_call | FileLoad_call | ConstructContext_call
  | ComputeSections_call | Read_call | ScanImportCalls_call | MapSections_call
  | ProcessImportCalls_call | ModulesLocalMapped_call | ConstructIat_call | AddImport_call
  | ConstructImage_call | InitializeMemoryPe_call | Reconstruct_call | DumpToFs_call

fun name_of :: "call \<Rightarrow> call_name" where
  "name_of (Attach pid) = Attach_call"
| "name_of (FindModule n) = FindModule_call"
| "name_of (FileLoad p) = FileLoad_call"
| "name_of (ConstructContext b) = ConstructContext_call"
| "name_of (ComputeSections ns a img) = ComputeSections_call"
| "name_of (Read a n) = Read_call"
| "name_of (ScanImportCalls a buf) = ScanImportCalls_call"
| "name_of (MapSections bufs) = MapSections_call"
| "name_of (ProcessImportCalls cs a) = ProcessImportCalls_call"
| "name_of (ModulesLocalMapped pid) = ModulesLocalMapped_call"
| "name_of ConstructIat = ConstructIat_call"
| "name_of (AddImport iat mn en) = AddImport_call"
| "name_of (ConstructImage a) = ConstructImage_call"
| "name_of (InitializeMemoryPe a n) = InitializeMemoryPe_call"
| "name_of (Reconstruct iat n) = Reconstruct_call"
| "name_of (DumpToFs p) = DumpToFs_call"

subsection \<open>What the environment says of a call\<close>

definition returned :: "'a outcome \<Rightarrow> bool" where
  "returned r = (case r of Returns v \<Rightarrow> True | Throws what \<Rightarrow> False | ThrowsOther \<Rightarrow> False)"

text \<open>
  \<open>returns e c\<close>: in the environment \<open>e\<close> the call \<open>c\<close>, with the arguments it was made
  with, succeeds. For \<^verbatim>\<open>find_module\<close> the logged call does not say on which process it
  was made, so nothing is said of it here (\<open>startup\<close> decides it).
\<close>

fun returns :: "env \<Rightarrow> call \<Rightarrow> bool" where
  "returns e (Attach pid) = attach e pid"
| "returns e (FindModule n) = True"
| "returns e (FileLoad p) = (file_load e p \<noteq> None)"
| "returns e (ConstructContext b) = returned (construct_context e b)"
| "returns e (ComputeSections ns a img) = returned (compute_sections e ns a img)"
| "returns e (Read a n) = (read e a n \<noteq> None)"
| "returns e (ScanImportCalls a buf) = returned (scan_import_calls e a buf)"
| "returns e (MapSections bufs) = returned (map_sections e bufs)"
| "returns e (ProcessImportCalls cs a) = returned (process_import_calls e cs a)"
| "returns e (ModulesLocalMapped pid) =
     (case modules_local_mapped e pid of Inl err \<Rightarrow> False | Inr mods \<Rightarrow> True)"
| "returns e ConstructIat = returned (construct_iat e)"
| "returns e (AddImport iat mn en) = returned (iat_add_import e iat mn en)"
| "returns e (ConstructImage a) = returned (construct_image e a)"
| "returns e (InitializeMemoryPe a n) = returned (initialize_memory_pe e a n)"
| "returns e (Reconstruct iat n) = returned (reconstruct e iat n)"
| "returns e (DumpToFs p) = returned (dump_to_fs e p)"

text \<open>The flag logged with a call is what the environment says of the call.\<close>

definition truthful :: "env \<Rightarrow> event \<Rightarrow> bool" where
  "truthful e ev = (name_of (fst ev) = FindModule_call \<or> snd ev = returns e (fst ev))"

text \<open>
  What the handlers of the driver make of a call that does not return, inside a
  \<^verbatim>\<open>try\<close>: an \<^verbatim>\<open>std::exception\<close> is caught and \<^verbatim>\<open>main\<close> returns
  \<^verbatim>\<open>EXIT_FAILURE\<close>; anything else is not caught.
\<close>

definition caught :: "'a outcome \<Rightarrow> ending" where
  "caught r = (case r of
                 Returns v \<Rightarrow> Returned EXIT_FAILURE
               | Throws what \<Rightarrow> Returned EXIT_FAILURE
               | ThrowsOther \<Rightarrow> Terminated)"

text \<open>
  \<open>on_failure e c\<close>: how the run ends when the call \<open>c\<close> fails. A failure of the
  process or of the file reader is a result that the driver tests; the calls of lines
  103, 105, 171, 172, 229, 231 and 233 are inside a \<^verbatim>\<open>try\<close>; the scanner (line 139),
  the two constructors (lines 192 and 225) and \<^verbatim>\<open>add_import\<close> (line 207) are outside
  every \<^verbatim>\<open>try\<close>.
\<close>

fun on_failure :: "env \<Rightarrow> call \<Rightarrow> ending" where
  "on_failure e (Attach pid) = Returned EXIT_FAILURE"
| "on_failure e (FindModule n) = Returned EXIT_FAILURE"
| "on_failure e (FileLoad p) = Returned EXIT_FAILURE"
| "on_failure e (ConstructContext b) = caught (construct_context e b)"
| "on_failure e (ComputeSections ns a img) = caught (compute_sections e ns a img)"
| "on_failure e (Read a n) = Returned EXIT_FAILURE"
| "on_failure e (ScanImportCalls a buf) = Terminated"
| "on_failure e (MapSections bufs) = caught (map_sections e bufs)"
| "on_failure e (ProcessImportCalls cs a) = caught (process_import_calls e cs a)"
| "on_failure e (ModulesLocalMapped pid) = Returned EXIT_FAILURE"
| "on_failure e ConstructIat = Terminated"
| "on_failure e (AddImport iat mn en) = Terminated"
| "on_failure e (ConstructImage a) = Terminated"
| "on_failure e (InitializeMemoryPe a n) = caught (initialize_memory_pe e a n)"
| "on_failure e (Reconstruct iat n) = caught (reconstruct e iat n)"
| "on_failure e (DumpToFs p) = caught (dump_to_fs e p)"

text \<open>
  The configuration parser is called before anything that the log holds:
  \<open>parse_toml_aborts e argv\<close> when it is called and throws what the handler of line 39
  does not catch.
\<close>

definition parse_toml_aborts :: "env \<Rightarrow> string list \<Rightarrow> bool" where
  "parse_toml_aborts e argv =
     (case arg_parser_parse e argv of
        Inl err \<Rightarrow> False
      | Inr arg_parser_ctx \<Rightarrow>
          (case parse_toml e arg_parser_ctx of
             Returns cfg \<Rightarrow> False
           | Throws what \<Rightarrow> False
           | ThrowsOther \<Rightarrow> True))"

subsection \<open>The shape of a run\<close>

text \<open>\<open>succeeded n evs\<close>: among \<open>evs\<close> there is a call named \<open>n\<close> that returned normally.\<close>

definition succeeded :: "call_name \<Rightarrow> event list \<Rightarrow> bool" where
  "succeeded n evs = list_ex (\<lambda>ev. name_of (fst ev) = n \<and> snd ev) evs"

fun is_dump :: "call \<Rightarrow> bool" where
  "is_dump (DumpToFs p) = True"
| "is_dump c = False"

text \<open>\<open>no_dump evs\<close>: \<^verbatim>\<open>dump_to_fs\<close> is not called in \<open>evs\<close>, so no output file is written.\<close>

definition no_dump :: "event list \<Rightarrow> bool" where
  "no_dump evs = list_all (\<lambda>ev. \<not> is_dump (fst ev)) evs"



text \<open>
  The three shapes of a run, each with a truthful log: every call returned, the last
  is \<^verbatim>\<open>dump_to_fs\<close> and \<^verbatim>\<open>main\<close> returns \<^verbatim>\<open>EXIT_SUCCESS\<close>; or the last call failed,
  every call before it returned, none of them is \<^verbatim>\<open>dump_to_fs\<close>, and the run ends as
  the failure of that call makes it end; or every call returned, none is
  \<^verbatim>\<open>dump_to_fs\<close>, and \<^verbatim>\<open>main\<close> returns \<^verbatim>\<open>EXIT_FAILURE\<close> (a parse error, an absent
  section, another machine).
\<close>

definition shape :: "env \<Rightarrow> run \<Rightarrow> bool" where
  "shape e r =
     (list_all (truthful e) (snd r) \<and>
      ((\<exists>pre p. snd r = pre @ [(DumpToFs p, True)] \<and> list_all snd pre \<and> no_dump pre \<and>
                 fst r = Returned EXIT_SUCCESS)
       \<or> (\<exists>pre c. snd r = pre @ [(c, False)] \<and> list_all snd pre \<and> no_dump pre \<and>
                 fst r = on_failure e c)
       \<or> (list_all snd (snd r) \<and> no_dump (snd r) \<and> fst r = Returned EXIT_FAILURE)))"

text \<open>The calls of the rebuild loop that returned: calls of \<^verbatim>\<open>add_import\<close>, logged truthfully.\<close>

definition add_events :: "env \<Rightarrow> event list \<Rightarrow> bool" where
  "add_events e evs =
     list_all (\<lambda>ev. name_of (fst ev) = AddImport_call \<and> snd ev \<and> returns e (fst ev)) evs"

subsection \<open>The order of the calls into the pipeline\<close>

text \<open>
  The calls into the pipeline are the calls of \<^verbatim>\<open>vmp::\<close> functions and of the
  constructors and methods of \<^verbatim>\<open>vmp::iat_t\<close> and \<^verbatim>\<open>vmp::image_t\<close>; the calls on the
  process and on the file reader are not.
\<close>

fun is_pipeline_call :: "call \<Rightarrow> bool" where
  "is_pipeline_call (Attach pid) = False"
| "is_pipeline_call (FindModule n) = False"
| "is_pipeline_call (FileLoad p) = False"
| "is_pipeline_call (Read a n) = False"
| "is_pipeline_call (ModulesLocalMapped pid) = False"
| "is_pipeline_call c = True"

definition pipeline_calls :: "run \<Rightarrow> call_name list" where
  "pipeline_calls r = map name_of (filter is_pipeline_call (map fst (snd r)))"

text \<open>
  The calls into the pipeline in the order of the text of \<^verbatim>\<open>main\<close>, for a rebuild loop
  that calls \<^verbatim>\<open>add_import\<close> \<open>k\<close> times.
\<close>

definition calls_of_main :: "nat \<Rightarrow> call_name list" where
  "calls_of_main k =
     [ConstructContext_call, ComputeSections_call, ScanImportCalls_call, MapSections_call,
      ProcessImportCalls_call, ConstructIat_call] @
     replicate k AddImport_call @
     [ConstructImage_call, InitializeMemoryPe_call, Reconstruct_call, DumpToFs_call]"

subsection \<open>The stage order in the words of the specification\<close>

text \<open>
  The five stages of the specification and the calls that belong to each: the Section
  Mapper is \<^verbatim>\<open>compute_sections\<close> (names, module base and image reader) together with
  \<^verbatim>\<open>map_sections\<close> (the copied bytes); the IAT Reconstructor is the \<^verbatim>\<open>iat\<close> object,
  the rebuild loop and \<^verbatim>\<open>iat.reconstruct\<close>; the Output Image Builder is the image
  object with \<^verbatim>\<open>initialize_memory_pe\<close> and \<^verbatim>\<open>dump_to_fs\<close>. The stated order holds of a
  run when the stages of its calls never step back.
\<close>

datatype stage =
  Section_Mapper | Import_Call_Scanner | Import_Resolver | IAT_Reconstructor | Output_Image_Builder

fun stage_rank :: "stage \<Rightarrow> nat" where
  "stage_rank Section_Mapper = 0"
| "stage_rank Import_Call_Scanner = 1"
| "stage_rank Import_Resolver = 2"
| "stage_rank IAT_Reconstructor = 3"
| "stage_rank Output_Image_Builder = 4"

fun stage_of :: "call \<Rightarrow> stage list" where
  "stage_of (ComputeSections ns a img) = [Section_Mapper]"
| "stage_of (MapSections bufs) = [Section_Mapper]"
| "stage_of (ScanImportCalls a buf) = [Import_Call_Scanner]"
| "stage_of (ProcessImportCalls cs a) = [Import_Resolver]"
| "stage_of ConstructIat = [IAT_Reconstructor]"
| "stage_of (AddImport iat mn en) = [IAT_Reconstructor]"
| "stage_of (Reconstruct iat n) = [IAT_Reconstructor]"
| "stage_of (ConstructImage a) = [Output_Image_Builder]"
| "stage_of (InitializeMemoryPe a n) = [Output_Image_Builder]"
| "stage_of (DumpToFs p) = [Output_Image_Builder]"
| "stage_of c = []"

definition stages :: "run \<Rightarrow> stage list" where
  "stages r = concat (map (\<lambda>ev. stage_of (fst ev)) (snd r))"

definition spec_stage_order :: "run \<Rightarrow> bool" where
  "spec_stage_order r = sorted (map stage_rank (stages r))"

section \<open>A concrete run\<close>

text \<open>
  A small process: the module \<^verbatim>\<open>target.exe\<close> at \<open>0x140000000\<close> with a two-byte
  \<^verbatim>\<open>.text\<close> and a one-byte \<^verbatim>\<open>.vmp0\<close>, and one mapped module \<^verbatim>\<open>kernel32.dll\<close> that
  exports \<^verbatim>\<open>Sleep\<close> at offset \<open>0x10\<close>. The scanner reports two call sites; the resolver
  gives the first the target \<open>0x12345\<close>, which is no export, and the second the address
  of \<^verbatim>\<open>Sleep\<close>. \<open>mach\<close> is the machine field of the file; a remote read of \<open>bad\<close> bytes
  fails.
\<close>

definition demo_cfg :: config_context where
  "demo_cfg = \<lparr>process_name = ''target.exe'', target_module_name = ''target.exe'',
     vmp_sections = [''.vmp0''], iat_section_name = ''.iat'', dump_path = ''dump.exe''\<rparr>"

definition demo_module :: module_t where
  "demo_module = \<lparr>path = ''target.exe'', address = 0x140000000, module_size = 0x4000\<rparr>"

definition demo_image :: "machine_id_t \<Rightarrow> image_t" where
  "demo_image mach = \<lparr>machine = mach,
     find_section = (\<lambda>n. if n = ''.text'' then Some \<lparr>virtual_size = 2, virtual_address = 0x1000\<rparr>
                          else if n = ''.vmp0'' then Some \<lparr>virtual_size = 1, virtual_address = 0x2000\<rparr>
                          else None)\<rparr>"

definition demo_kernel32 :: mapped_module where
  "demo_kernel32 = \<lparr>pe_exports = [\<lparr>export_name = ''Sleep'', export_va = 0x10\<rparr>],
     remote_image_base = 0x7FFE0000, mapped_module_name = ''kernel32.dll''\<rparr>"

definition demo_imports :: "import_t list" where
  "demo_imports = [\<lparr>call_site_va = 0x140001000, import_address = 0x12345\<rparr>,
                   \<lparr>call_site_va = 0x140001001, import_address = 0x7FFE0010\<rparr>]"

definition demo_env :: "machine_id_t \<Rightarrow> nat \<Rightarrow> env" where
  "demo_env mach bad = \<lparr>
     arg_parser_parse = (\<lambda>argv. Inr ''config.toml''),
     parse_toml = (\<lambda>p. Returns demo_cfg),
     find_process_id = (\<lambda>n. Inr 7),
     attach = (\<lambda>pid. True),
     find_module = (\<lambda>pid n. Inr demo_module),
     file_load = (\<lambda>p. Some (demo_image mach)),
     construct_context = (\<lambda>b. Returns ()),
     compute_sections = (\<lambda>ns a img. Returns ()),
     read = (\<lambda>a n. if n = bad then None else Some (replicate n 0)),
     scan_import_calls = (\<lambda>a buf. Returns [a, a + 1]),
     map_sections = (\<lambda>bufs. Returns ()),
     process_import_calls = (\<lambda>cs b. Returns demo_imports),
     modules_local_mapped = (\<lambda>pid. Inr [demo_kernel32]),
     construct_iat = Returns (),
     iat_add_import = (\<lambda>iat mn en. Returns ()),
     construct_image = (\<lambda>a. Returns ()),
     initialize_memory_pe = (\<lambda>a n. Returns ()),
     reconstruct = (\<lambda>iat n. Returns ()),
     dump_to_fs = (\<lambda>p. Returns ())\<rparr>"


text \<open>Two modules that both export the address \<open>0x7FFE0010\<close>, the first as its second export.\<close>

definition demo_first :: mapped_module where
  "demo_first = \<lparr>pe_exports = [\<lparr>export_name = ''Beep'', export_va = 0x8\<rparr>,
                                \<lparr>export_name = ''Sleep'', export_va = 0x10\<rparr>,
                                \<lparr>export_name = ''SleepAlias'', export_va = 0x10\<rparr>],
     remote_image_base = 0x7FFE0000, mapped_module_name = ''kernel32.dll''\<rparr>"

definition demo_second :: mapped_module where
  "demo_second = \<lparr>pe_exports = [\<lparr>export_name = ''SleepForwarded'', export_va = 0x7FFE0010\<rparr>],
     remote_image_base = 0, mapped_module_name = ''kernelbase.dll''\<rparr>"

section \<open>Stages whose bodies the sources do not hold\<close>

text \<open>
  \<^verbatim>\<open>main.cpp\<close> calls \<^verbatim>\<open>vmp::construct_context\<close>, \<^verbatim>\<open>vmp::utilities::scan_import_calls\<close>
  and \<^verbatim>\<open>vmp::process_import_calls\<close>; their bodies are in files that are not part of the
  sources. The definitions of this section follow the specification instead.
\<close>

subsection \<open>The VM context\<close>

record vm_context =
  is_64_bit :: bool
  context_imports :: "import_t list"

datatype configuration_error = ConfigurationError

text \<open>
  Modelled from the spec: the body of \<^verbatim>\<open>vmp::construct_context\<close> is missing.
  The context is process-wide state, absent (\<open>None\<close>) until it is constructed.
  \<^verbatim>\<open>construct (is_64_bit)\<close> initializes it and fails with a ConfigurationError when it
  is invoked twice. The architecture is a boolean, so every value of it is supported.
  The call returns its result and the state it leaves.
\<close>

definition vmp_construct_context ::
  "bool \<Rightarrow> vm_context option \<Rightarrow> (configuration_error + unit) \<times> vm_context option"
where
  "vmp_construct_context is_64 st =
     (case st of
        None \<Rightarrow> (Inr (), Some \<lparr>is_64_bit = is_64, context_imports = []\<rparr>)
      | Some ctx \<Rightarrow> (Inl ConfigurationError, Some ctx))"

subsection \<open>The trace of the Import Resolver\<close>

text \<open>
  One step of the virtual machine either goes on in a new state or is the terminal
  transfer out of the machine, to the recovered target.
\<close>

datatype 's vm_step = Continue 's | Transfer addr

datatype trace_error = TraceOverflowError | UnsupportedOpcodeError nat

text \<open>
  Modelled from the spec: the body of \<^verbatim>\<open>vmp::process_import_calls\<close> is missing, and with
  it the tracer. The specification fixes neither the opcodes, nor the encoding of the
  bytecode, nor the budget; they are parameters: \<open>fetch\<close> reads the opcode of the next
  operation from the state (which holds the mapped section bytes), \<open>handlers\<close> is the one
  handler table, with \<open>None\<close> for an operation the tracer does not model, and \<open>budget\<close>
  is the fixed number of steps. The trace fails with TraceOverflowError when the budget
  is used up before a terminal transfer, and with UnsupportedOpcodeError naming the
  opcode when the table has no handler for it.
\<close>

fun trace ::
  "('s \<Rightarrow> nat) \<Rightarrow> (nat \<Rightarrow> ('s \<Rightarrow> 's vm_step) option) \<Rightarrow> nat \<Rightarrow> 's \<Rightarrow> trace_error + addr"
where
  "trace fetch handlers 0 s = Inl TraceOverflowError"
| "trace fetch handlers (Suc budget) s =
     (case handlers (fetch s) of
        None \<Rightarrow> Inl (UnsupportedOpcodeError (fetch s))
      | Some handler \<Rightarrow>
          (case handler s of
             Transfer target \<Rightarrow> Inr target
           | Continue s' \<Rightarrow> trace fetch handlers budget s'))"

text \<open>
  Modelled from the spec: the loop of \<^verbatim>\<open>vmp::process_import_calls\<close> is missing.
  For each call site, in order, it traces from the state \<open>entry\<close> gives for the site and
  appends the record of the call site and the recovered target to the imports of the
  context; the first trace that fails aborts the whole call.
\<close>

fun vmp_process_import_calls ::
  "('s \<Rightarrow> nat) \<Rightarrow> (nat \<Rightarrow> ('s \<Rightarrow> 's vm_step) option) \<Rightarrow> nat \<Rightarrow> (addr \<Rightarrow> 's) \<Rightarrow>
     addr list \<Rightarrow> import_t list \<Rightarrow> trace_error + import_t list"
where
  "vmp_process_import_calls fetch handlers budget entry [] imps = Inr imps"
| "vmp_process_import_calls fetch handlers budget entry (c # cs) imps =
     (case trace fetch handlers budget (entry c) of
        Inl err \<Rightarrow> Inl err
      | Inr target \<Rightarrow>
          vmp_process_import_calls fetch handlers budget entry cs
            (imps @ [\<lparr>call_site_va = c, import_address = target\<rparr>]))"

text \<open>
  The state after \<open>n\<close> steps that all went on; \<open>None\<close> when the run stopped before. It
  serves to say where a trace ended.
\<close>

fun state_after ::
  "('s \<Rightarrow> nat) \<Rightarrow> (nat \<Rightarrow> ('s \<Rightarrow> 's vm_step) option) \<Rightarrow> nat \<Rightarrow> 's \<Rightarrow> 's option"
where
  "state_after fetch handlers 0 s = Some s"
| "state_after fetch handlers (Suc n) s =
     (case handlers (fetch s) of
        None \<Rightarrow> None
      | Some handler \<Rightarrow>
          (case handler s of
             Transfer target \<Rightarrow> None
           | Continue s' \<Rightarrow> state_after fetch handlers n s'))"

subsection \<open>The Import Call Scanner\<close>

text \<open>
  The data model of the specification gives an address no width, so the scanner is
  written for any type of addresses that has an addition: the natural numbers, or the
  64-bit words of the driver.

  The instruction-length decoder: from the address of an instruction and the bytes from
  there on, \<open>None\<close> when the bytes do not decode, else the length of the instruction
  and, for a call-type instruction, its raw target.
\<close>

type_synonym 'a decoder = "'a \<Rightarrow> byte list \<Rightarrow> (nat \<times> 'a option) option"

text \<open>
  Modelled from the spec: the body of \<^verbatim>\<open>vmp::utilities::scan_import_calls\<close> is missing.
  A linear scan from offset \<open>off\<close>: bytes that do not decode (also a length of zero or
  one that runs past the buffer) are skipped one byte at a time; an instruction is
  stepped over by its length, and its offset is kept when it is a call whose raw target
  lies in a mapped protected section (\<open>in_mapped\<close>). The decoder and the mapped
  sections are parameters.
\<close>

function scan_offsets ::
  "('a::semiring_1) decoder \<Rightarrow> ('a \<Rightarrow> bool) \<Rightarrow> 'a \<Rightarrow> byte list \<Rightarrow> nat \<Rightarrow> nat list"
where
  "scan_offsets decode in_mapped base buf off =
     (if length buf \<le> off then []
      else (case decode (base + of_nat off) (drop off buf) of
              None \<Rightarrow> scan_offsets decode in_mapped base buf (Suc off)
            | Some (len, target) \<Rightarrow>
                if len = 0 \<or> length buf < off + len
                then scan_offsets decode in_mapped base buf (Suc off)
                else (case target of
                        None \<Rightarrow> []
                      | Some t \<Rightarrow> if in_mapped t then [off] else [])
                     @ scan_offsets decode in_mapped base buf (off + len)))"
  by pat_completeness auto
termination
  by (relation "measure (\<lambda>(decode, in_mapped, base, buf, off). length buf - off)") auto

declare scan_offsets.simps [simp del]

text \<open>
  Modelled from the spec: the result of \<^verbatim>\<open>vmp::utilities::scan_import_calls\<close>, the
  virtual address of each kept instruction: the base plus its offset.
\<close>

definition vmp_scan_import_calls ::
  "('a::semiring_1) decoder \<Rightarrow> ('a \<Rightarrow> bool) \<Rightarrow> 'a \<Rightarrow> byte list \<Rightarrow> 'a list"
where
  "vmp_scan_import_calls decode in_mapped base buf =
     map (\<lambda>off. base + of_nat off) (scan_offsets decode in_mapped base buf 0)"

text \<open>
  The instructions of a buffer are those the linear scan decodes: \<open>insn_starts\<close> gives
  their offsets, from offset \<open>off\<close> on. An offset inside an instruction is not the
  start of one.
\<close>

function insn_starts :: "('a::semiring_1) decoder \<Rightarrow> 'a \<Rightarrow> byte list \<Rightarrow> nat \<Rightarrow> nat list" where
  "insn_starts decode base buf off =
     (if length buf \<le> off then []
      else (case decode (base + of_nat off) (drop off buf) of
              None \<Rightarrow> insn_starts decode base buf (Suc off)
            | Some (len, target) \<Rightarrow>
                if len = 0 \<or> length buf < off + len
                then insn_starts decode base buf (Suc off)
                else off # insn_starts decode base buf (off + len)))"
  by pat_completeness auto
termination
  by (relation "measure (\<lambda>(decode, base, buf, off). length buf - off)") auto

declare insn_starts.simps [simp del]

text \<open>At offset \<open>off\<close> the bytes decode to a call whose raw target lies in a mapped section.\<close>

definition mapped_call_at ::
  "('a::semiring_1) decoder \<Rightarrow> ('a \<Rightarrow> bool) \<Rightarrow> 'a \<Rightarrow> byte list \<Rightarrow> nat \<Rightarrow> bool"
where
  "mapped_call_at decode in_mapped base buf off =
     (case decode (base + of_nat off) (drop off buf) of
        None \<Rightarrow> False
      | Some (len, target) \<Rightarrow>
          (case target of None \<Rightarrow> False | Some t \<Rightarrow> in_mapped t))"

text \<open>The buffer holds no call instruction whose raw target lies in a mapped section.\<close>

definition no_mapped_call ::
  "('a::semiring_1) decoder \<Rightarrow> ('a \<Rightarrow> bool) \<Rightarrow> 'a \<Rightarrow> byte list \<Rightarrow> bool"
where
  "no_mapped_call decode in_mapped base buf =
     list_all (\<lambda>off. \<not> mapped_call_at decode in_mapped base buf off)
       (insn_starts decode base buf 0)"

text \<open>
  A small decoder for the examples: the byte \<open>0xE8\<close> starts a call of five bytes whose
  target is the address after the instruction plus its first operand byte; every other
  byte is an instruction of one byte; a call cut short by the end of the buffer does not
  decode. The mapped section of the examples is the range from \<open>lo\<close> up to \<open>hi\<close>.
\<close>

definition demo_decode :: "('a::semiring_1) decoder" where
  "demo_decode a bytes =
     (if bytes = [] then None
      else if hd bytes = 0xE8
           then (if 5 \<le> length bytes then Some (5, Some (a + 5 + of_nat (unat (bytes ! 1)))) else None)
           else Some (1, None))"

definition demo_in_mapped :: "('a::ord) \<Rightarrow> 'a \<Rightarrow> 'a \<Rightarrow> bool" where
  "demo_in_mapped lo hi t = (lo \<le> t \<and> t < hi)"

text \<open>
  A small virtual machine for the examples: the state is the opcode to run. Opcode 0
  goes on to opcode 1, opcode 1 transfers to \<open>0x7FFE0010\<close>, opcode 2 goes on to itself
  for ever, and no other opcode has a handler.
\<close>

definition demo_fetch :: "nat \<Rightarrow> nat" where
  "demo_fetch s = s"

definition demo_handlers :: "nat \<Rightarrow> (nat \<Rightarrow> nat vm_step) option" where
  "demo_handlers opc =
     (if opc = 0 then Some (\<lambda>s. Continue 1)
      else if opc = 1 then Some (\<lambda>s. Transfer 0x7FFE0010)
      else if opc = 2 then Some (\<lambda>s. Continue 2)
      else None)"

section \<open>Facts about the rebuild loop\<close>

lemma exports_loop_find:
  "exports_loop add_import mname va es (False, iat) =
     (case List.find (\<lambda>e. va = export_va e) es of
        None \<Rightarrow> (False, iat)
      | Some e \<Rightarrow> (True, add_import mname (export_name e) iat))"
  by (induction es) simp_all

lemma find_None_list_ex: "List.find P xs = None \<longleftrightarrow> \<not> list_ex P xs"
  by (induction xs) simp_all

lemma modules_loop_first_match:
  "modules_loop add_import target mods (False, iat) =
     (case first_match mods target of
        None \<Rightarrow> (False, iat)
      | Some (mn, en) \<Rightarrow> (True, add_import mn en iat))"
proof (induction mods)
  case Nil
  show ?case by (simp add: first_match_def)
next
  case (Cons m ms)
  have pred: "(\<lambda>e. target - remote_image_base m = export_va e) = export_matches m target"
    by (simp add: export_matches_def fun_eq_iff)
  show ?case
  proof (cases "List.find (export_matches m target) (pe_exports m)")
    case None
    then have "\<not> module_matches target m"
      by (simp add: module_matches_def find_None_list_ex)
    with None Cons.IH show ?thesis
      by (simp add: exports_loop_find pred first_match_def)
  next
    case (Some e)
    then have "module_matches target m"
      unfolding module_matches_def using find_None_list_ex [of "export_matches m target" "pe_exports m"]
      by auto
    with Some show ?thesis
      by (simp add: exports_loop_find pred first_match_def)
  qed
qed

lemma import_step_first_match:
  "import_step add_import mods imp iat =
     (case first_match mods (import_address imp) of
        None \<Rightarrow> iat
      | Some (mn, en) \<Rightarrow> add_import mn en iat)"
  by (simp add: import_step_def modules_loop_first_match split: option.splits)

lemma iat_rebuild_append:
  "iat_rebuild add_import mods (xs @ ys) iat =
     iat_rebuild add_import mods ys (iat_rebuild add_import mods xs iat)"
  by (induction xs arbitrary: iat) simp_all

lemma unresolved_first_match:
  "unresolved mods imp \<Longrightarrow> first_match mods (import_address imp) = None"
proof -
  assume u: "unresolved mods imp"
  have "\<not> list_ex (module_matches (import_address imp)) mods"
    using u by (induction mods) (auto simp: unresolved_def module_matches_def list_all_iff list_ex_iff)
  then have "List.find (module_matches (import_address imp)) mods = None"
    by (simp add: find_None_list_ex)
  then show ?thesis by (simp add: first_match_def)
qed

lemma first_match_at:
  assumes i: "i < length mods"
    and j: "j < length (pe_exports (mods ! i))"
    and hit: "export_matches (mods ! i) target (pe_exports (mods ! i) ! j)"
    and earlier_mods: "\<forall>k<i. \<not> module_matches target (mods ! k)"
    and earlier_exps: "\<forall>k<j. \<not> export_matches (mods ! i) target (pe_exports (mods ! i) ! k)"
  shows "first_match mods target =
           Some (mapped_module_name (mods ! i), export_name (pe_exports (mods ! i) ! j))"
proof -
  have mm: "module_matches target (mods ! i)"
    using j hit by (auto simp: module_matches_def list_ex_iff)
  have "List.find (module_matches target) mods = Some (mods ! i)"
    using i mm earlier_mods by (auto simp: find_Some_iff)
  moreover have "List.find (export_matches (mods ! i) target) (pe_exports (mods ! i)) =
                   Some (pe_exports (mods ! i) ! j)"
    using j hit earlier_exps by (auto simp: find_Some_iff)
  ultimately show ?thesis by (simp add: first_match_def)
qed

section \<open>Facts about the rebuild loop with exceptions\<close>

lemma exports_loop_x_find:
  "exports_loop_x add_import mname va es (False, iat) =
     (case List.find (\<lambda>ex. va = export_va ex) es of
        None \<Rightarrow> Inr (False, iat)
      | Some ex \<Rightarrow>
          (case add_import mname (export_name ex) iat of
             Inl x \<Rightarrow> Inl x
           | Inr iat1 \<Rightarrow> Inr (True, iat1)))"
  by (induction es) (simp_all split: sum.splits)

lemma modules_loop_x_first_match:
  "modules_loop_x add_import target mods (False, iat) =
     (case first_match mods target of
        None \<Rightarrow> Inr (False, iat)
      | Some (mn, en) \<Rightarrow>
          (case add_import mn en iat of
             Inl x \<Rightarrow> Inl x
           | Inr iat1 \<Rightarrow> Inr (True, iat1)))"
proof (induction mods)
  case Nil
  show ?case by (simp add: first_match_def)
next
  case (Cons m ms)
  have pred: "(\<lambda>ex. target - remote_image_base m = export_va ex) = export_matches m target"
    by (simp add: export_matches_def fun_eq_iff)
  show ?case
  proof (cases "List.find (export_matches m target) (pe_exports m)")
    case None
    then have "\<not> module_matches target m"
      by (simp add: module_matches_def find_None_list_ex)
    with None Cons.IH show ?thesis
      by (simp add: exports_loop_x_find pred first_match_def)
  next
    case (Some ex)
    then have "module_matches target m"
      unfolding module_matches_def
      using find_None_list_ex [of "export_matches m target" "pe_exports m"] by auto
    with Some show ?thesis
      by (simp add: exports_loop_x_find pred first_match_def split: sum.splits)
  qed
qed

lemma import_step_x_first_match:
  "import_step_x add_import mods imp iat =
     (case first_match mods (import_address imp) of
        None \<Rightarrow> Inr iat
      | Some (mn, en) \<Rightarrow> add_import mn en iat)"
  by (simp add: import_step_x_def modules_loop_x_first_match split: option.splits sum.splits)

text \<open>With an \<^verbatim>\<open>add_import\<close> that always returns, it is the loop without exceptions.\<close>

lemma iat_rebuild_x_returning:
  "iat_rebuild_x (\<lambda>mn en i. Inr (add_import mn en i)) mods imps iat =
     Inr (iat_rebuild add_import mods imps iat)"
  by (induction imps arbitrary: iat)
     (simp_all add: import_step_x_first_match import_step_first_match split: option.splits)

text \<open>
  While \<^verbatim>\<open>add_import\<close> returns, the loop with exceptions makes the calls of the loop
  without them; an exception ends it at the call that threw.
\<close>

lemma add_events_simps [simp]:
  "add_events e []"
  "add_events e (xs @ ys) = (add_events e xs \<and> add_events e ys)"
  "add_events e (ev # evs) =
     ((name_of (fst ev) = AddImport_call \<and> snd ev \<and> returns e (fst ev)) \<and> add_events e evs)"
  by (simp_all add: add_events_def)

lemma rebuild_x_driver:
  "(case iat_rebuild_x (driver_add_import e) mods imps (evs0, iat0) of
      Inr st \<Rightarrow>
        (\<exists>new. fst st = evs0 @ new \<and> add_events e new \<and>
               snd st = iat_rebuild log_import mods imps iat0)
    | Inl evs \<Rightarrow>
        (\<exists>new c. evs = evs0 @ new @ [(c, False)] \<and> add_events e new \<and>
                 name_of c = AddImport_call \<and> \<not> returns e c))"
proof (induction imps arbitrary: evs0 iat0)
  case Nil
  show ?case by simp
next
  case (Cons imp imps)
  show ?case
  proof (cases "first_match mods (import_address imp)")
    case None
    then have eq1: "iat_rebuild_x (driver_add_import e) mods (imp # imps) (evs0, iat0) =
               iat_rebuild_x (driver_add_import e) mods imps (evs0, iat0)"
      and eq2: "iat_rebuild log_import mods (imp # imps) iat0 = iat_rebuild log_import mods imps iat0"
      by (simp_all add: import_step_x_first_match import_step_first_match)
    show ?thesis unfolding eq1 eq2 by (rule Cons.IH)
  next
    case (Some p)
    obtain mn en where p: "p = (mn, en)" by (cases p)
    let ?c = "AddImport iat0 mn en"
    have pure: "iat_rebuild log_import mods (imp # imps) iat0 =
                iat_rebuild log_import mods imps (log_import mn en iat0)"
      using Some p by (simp add: import_step_first_match)
    show ?thesis
    proof (cases "returns e ?c")
      case False
      then have "iat_rebuild_x (driver_add_import e) mods (imp # imps) (evs0, iat0) =
                 Inl (evs0 @ [] @ [(?c, False)])"
        using Some p
        by (simp add: import_step_x_first_match driver_add_import_def returned_def
            split: outcome.splits)
      moreover have "add_events e [] \<and> name_of ?c = AddImport_call \<and> \<not> returns e ?c"
        using False by simp
      ultimately show ?thesis
        by (simp only: sum.case) blast
    next
      case True
      let ?evs1 = "evs0 @ [(?c, True)]"
      let ?iat1 = "log_import mn en iat0"
      from True have step: "iat_rebuild_x (driver_add_import e) mods (imp # imps) (evs0, iat0) =
                 iat_rebuild_x (driver_add_import e) mods imps (?evs1, ?iat1)"
        using Some p
        by (simp add: import_step_x_first_match driver_add_import_def returned_def
            split: outcome.splits)
      show ?thesis
      proof (cases "iat_rebuild_x (driver_add_import e) mods imps (?evs1, ?iat1)")
        case (Inr st)
        with Cons.IH [of ?evs1 ?iat1] obtain new where
          "fst st = ?evs1 @ new" "add_events e new"
          "snd st = iat_rebuild log_import mods imps ?iat1"
          by auto
        with True have "fst st = evs0 @ ((?c, True) # new) \<and> add_events e ((?c, True) # new) \<and>
                        snd st = iat_rebuild log_import mods (imp # imps) iat0"
          by (simp add: pure del: iat_rebuild.simps)
        then show ?thesis
          unfolding step Inr by (simp only: sum.case) blast
      next
        case (Inl evs)
        with Cons.IH [of ?evs1 ?iat1] obtain new c where
          "evs = ?evs1 @ new @ [(c, False)]" "add_events e new"
          "name_of c = AddImport_call" "\<not> returns e c"
          by auto
        with True have "evs = evs0 @ ((?c, True) # new) @ [(c, False)] \<and>
                        add_events e ((?c, True) # new) \<and>
                        name_of c = AddImport_call \<and> \<not> returns e c"
          by simp
        then show ?thesis
          unfolding step Inl by (simp only: sum.case) blast
      qed
    qed
  qed
qed

lemma rebuild_x_returns:
  assumes "\<And>iat mn en. returned (iat_add_import e iat mn en)"
  shows "\<exists>evs. iat_rebuild_x (driver_add_import e) mods imps ([], []) =
                 Inr (evs, iat_rebuild log_import mods imps []) \<and> add_events e evs"
proof (cases "iat_rebuild_x (driver_add_import e) mods imps ([], [])")
  case (Inl evs)
  with rebuild_x_driver [where e = e and mods = mods and imps = imps and ?evs0.0 = "[]" and ?iat0.0 = "[]"] obtain c where
    "name_of c = AddImport_call" "\<not> returns e c"
    by auto
  with assms show ?thesis by (cases c) auto
next
  case (Inr st)
  with rebuild_x_driver [where e = e and mods = mods and imps = imps and ?evs0.0 = "[]" and ?iat0.0 = "[]"] show ?thesis
    by (cases st) auto
qed

section \<open>Facts about the runs of the driver\<close>

lemma after_simps [simp]:
  "fst (after evs r) = fst r" "snd (after evs r) = evs @ snd r"
  "fst failed = Returned EXIT_FAILURE" "snd failed = []"
  "fst terminated = Terminated" "snd terminated = []"
  by (simp_all add: after_def failed_def terminated_def)

lemma after_append: "after (xs @ ys) r = after xs (after ys r)"
  by (simp add: after_def)

lemma no_dump_simps [simp]:
  "no_dump []" "no_dump (ev # evs) = (\<not> is_dump (fst ev) \<and> no_dump evs)"
  "no_dump (xs @ ys) = (no_dump xs \<and> no_dump ys)"
  by (simp_all add: no_dump_def)

lemma succeeded_simps [simp]:
  "succeeded n [] = False"
  "succeeded n (ev # evs) = ((name_of (fst ev) = n \<and> snd ev) \<or> succeeded n evs)"
  "succeeded n (xs @ ys) = (succeeded n xs \<or> succeeded n ys)"
  by (simp_all add: succeeded_def)


lemma add_events_plain:
  "add_events e evs \<Longrightarrow> list_all snd evs \<and> no_dump evs \<and> list_all (truthful e) evs"
proof (induction evs)
  case Nil
  show ?case by simp
next
  case (Cons ev evs)
  then have "name_of (fst ev) = AddImport_call" and "snd ev" and "returns e (fst ev)"
    by simp_all
  moreover from this have "\<not> is_dump (fst ev)"
    by (cases "fst ev") simp_all
  ultimately show ?case
    using Cons by (simp add: truthful_def)
qed

lemma add_events_names:
  "add_events e evs \<Longrightarrow>
     map name_of (filter is_pipeline_call (map fst evs)) = replicate (length evs) AddImport_call \<and>
     \<not> succeeded DumpToFs_call evs"
proof (induction evs)
  case Nil
  show ?case by simp
next
  case (Cons ev evs)
  then have n: "name_of (fst ev) = AddImport_call" by simp
  then have "is_pipeline_call (fst ev)"
    by (cases "fst ev") simp_all
  with n Cons show ?case by simp
qed

subsection \<open>Every run has one of the three shapes\<close>

lemma shape_failed0: "shape e failed"
  by (simp add: shape_def)

lemma shape_failing_call:
  "truthful e (c, False) \<Longrightarrow> ending = on_failure e c \<Longrightarrow> shape e (after [(c, False)] (ending, []))"
  unfolding shape_def
  by (intro conjI disjI2 disjI1 exI [of _ "[]"] exI [of _ c]) simp_all

lemma shape_dumped:
  "returns e (DumpToFs p) \<Longrightarrow> shape e (after [(DumpToFs p, True)] (Returned EXIT_SUCCESS, []))"
  unfolding shape_def
  by (intro conjI disjI1 exI [of _ "[]"] exI [of _ p]) (simp_all add: truthful_def)

lemma shape_after:
  assumes "shape e r" "list_all snd evs" "no_dump evs" "list_all (truthful e) evs"
  shows "shape e (after evs r)"
proof -
  from assms(1) have t: "list_all (truthful e) (snd r)"
    by (simp add: shape_def)
  from assms(1) consider
      (dumped) pre p where "snd r = pre @ [(DumpToFs p, True)]" "list_all snd pre" "no_dump pre"
        "fst r = Returned EXIT_SUCCESS"
    | (call_failed) pre c where "snd r = pre @ [(c, False)]" "list_all snd pre" "no_dump pre"
        "fst r = on_failure e c"
    | (plain) "list_all snd (snd r)" "no_dump (snd r)" "fst r = Returned EXIT_FAILURE"
    unfolding shape_def by blast
  then show ?thesis
  proof cases
    case dumped
    with assms(2-4) t have
      "snd (after evs r) = (evs @ pre) @ [(DumpToFs p, True)] \<and> list_all snd (evs @ pre) \<and>
       no_dump (evs @ pre) \<and> fst (after evs r) = Returned EXIT_SUCCESS \<and>
       list_all (truthful e) (snd (after evs r))"
      by simp
    then show ?thesis unfolding shape_def by blast
  next
    case call_failed
    with assms(2-4) t have
      "snd (after evs r) = (evs @ pre) @ [(c, False)] \<and> list_all snd (evs @ pre) \<and>
       no_dump (evs @ pre) \<and> fst (after evs r) = on_failure e c \<and>
       list_all (truthful e) (snd (after evs r))"
      by simp
    then show ?thesis unfolding shape_def by blast
  next
    case plain
    with assms(2-4) t show ?thesis by (simp add: shape_def)
  qed
qed

lemma shape_after1:
  "shape e r \<Longrightarrow> returns e c \<Longrightarrow> \<not> is_dump c \<Longrightarrow> shape e (after [(c, True)] r)"
  by (rule shape_after) (simp_all add: truthful_def)

lemma shape_output: "shape e (output_stage e cfg m iat)"
  unfolding output_stage_def
  by (auto split: outcome.splits
      intro!: shape_after1 shape_dumped shape_failing_call
      simp: failed_def terminated_def truthful_def returned_def caught_def)

lemma shape_iat: "shape e (iat_stage e cfg pid m imps)"
proof (cases "modules_local_mapped e pid")
  case (Inl err)
  then show ?thesis
    by (auto simp: iat_stage_def failed_def truthful_def intro!: shape_failing_call)
next
  case (Inr mods)
  then have mlm: "returns e (ModulesLocalMapped pid)" by simp
  show ?thesis
  proof (cases "construct_iat e")
    case (Returns u)
    then have ci: "returns e ConstructIat" by (simp add: returned_def)
    have loop: "shape e (case iat_rebuild_x (driver_add_import e) mods imps ([], []) of
                           Inl evs \<Rightarrow> after evs terminated
                         | Inr st \<Rightarrow> after (fst st) (output_stage e cfg m (snd st)))"
    proof (cases "iat_rebuild_x (driver_add_import e) mods imps ([], [])")
      case (Inl evs)
      with rebuild_x_driver [where e = e and mods = mods and imps = imps and ?evs0.0 = "[]" and ?iat0.0 = "[]"] obtain new c where
        evs: "evs = new @ [(c, False)]" and new: "add_events e new"
        and c: "name_of c = AddImport_call" "\<not> returns e c"
        by auto
      from c have "on_failure e c = Terminated" by (cases c) simp_all
      with c have "shape e (after [(c, False)] (Terminated, []))"
        by (intro shape_failing_call) (simp_all add: truthful_def)
      then have sh: "shape e (after [(c, False)] terminated)"
        by (simp add: terminated_def)
      have pl: "list_all snd new" "no_dump new" "list_all (truthful e) new"
        using add_events_plain [OF new] by simp_all
      have "shape e (after new (after [(c, False)] terminated))"
        by (rule shape_after [OF sh pl])
      then show ?thesis
        using Inl evs by (simp add: after_append)
    next
      case (Inr st)
      with rebuild_x_driver [where e = e and mods = mods and imps = imps and ?evs0.0 = "[]" and ?iat0.0 = "[]"] have "add_events e (fst st)"
        by auto
      with add_events_plain [of e "fst st"] have "shape e (after (fst st) (output_stage e cfg m (snd st)))"
        by (intro shape_after shape_output) simp_all
      with Inr show ?thesis by simp
    qed
    show ?thesis
      unfolding iat_stage_def
      using Inr Returns loop mlm ci
      by (auto intro!: shape_after1)
  next
    case (Throws what)
    with Inr mlm show ?thesis
      by (auto simp: iat_stage_def terminated_def truthful_def returned_def
          intro!: shape_after1 shape_failing_call)
  next
    case ThrowsOther
    with Inr mlm show ?thesis
      by (auto simp: iat_stage_def terminated_def truthful_def returned_def
          intro!: shape_after1 shape_failing_call)
  qed
qed

lemma shape_resolve: "shape e (resolve_stage e cfg pid m ics bufs)"
  unfolding resolve_stage_def
  by (auto split: outcome.splits
      intro!: shape_after1 shape_iat shape_failing_call
      simp: failed_def terminated_def truthful_def returned_def caught_def)

lemma read_sections_events:
  "snd (read_sections e m img ns bufs) = None \<Longrightarrow>
     shape e (after (fst (read_sections e m img ns bufs)) failed)"
  "snd (read_sections e m img ns bufs) \<noteq> None \<Longrightarrow>
     list_all snd (fst (read_sections e m img ns bufs)) \<and>
     no_dump (fst (read_sections e m img ns bufs)) \<and>
     list_all (truthful e) (fst (read_sections e m img ns bufs))"
proof (induction ns arbitrary: bufs)
  case Nil
  { case 1 then show ?case by simp }
  { case 2 show ?case by simp }
next
  case (Cons s ns)
  { case 1
    show ?case
    proof (cases "find_section img s")
      case None
      then show ?thesis by (simp add: shape_failed0 [unfolded failed_def] after_def failed_def)
    next
      case (Some sh)
      let ?n = "unat (virtual_size sh)"
      let ?a = "address m + ucast (virtual_address sh)"
      show ?thesis
      proof (cases "read e ?a ?n")
        case None
        with Some show ?thesis
          by (auto simp: Let_def failed_def truthful_def intro!: shape_failing_call)
      next
        case (Some buf)
        let ?r = "read_sections e m img ns (bufs @ [(?a, buf)])"
        from "1" \<open>find_section img s = Some sh\<close> Some have "snd ?r = None"
          by (simp add: Let_def)
        then have "shape e (after (fst ?r) failed)"
          by (rule Cons.IH(1))
        then have "shape e (after [(Read ?a ?n, True)] (after (fst ?r) failed))"
          using Some by (intro shape_after1) simp_all
        then show ?thesis
          using \<open>find_section img s = Some sh\<close> Some by (simp add: Let_def after_def)
      qed
    qed }
  { case 2
    then show ?case
      using Cons.IH(2)
      by (auto simp: Let_def truthful_def split: option.splits) }
qed

lemma shape_read: "shape e (read_stage e cfg pid m img)"
proof (cases "find_section img ''.text''")
  case None
  then show ?thesis by (simp add: read_stage_def shape_failed0)
next
  case (Some sh)
  let ?n = "unat (virtual_size sh)"
  let ?a = "address m + ucast (virtual_address sh)"
  show ?thesis
  proof (cases "read e ?a ?n")
    case None
    with Some show ?thesis
      by (auto simp: read_stage_def Let_def failed_def truthful_def intro!: shape_failing_call)
  next
    case rd: (Some buf)
    have scanned: "shape e (case scan_import_calls e ?a buf of
                     Throws what \<Rightarrow> after [(ScanImportCalls ?a buf, False)] terminated
                   | ThrowsOther \<Rightarrow> after [(ScanImportCalls ?a buf, False)] terminated
                   | Returns import_calls \<Rightarrow>
                       (let r = read_sections e m img (vmp_sections cfg) [(?a, buf)]
                        in after ((ScanImportCalls ?a buf, True) # fst r)
                             (case snd r of
                                None \<Rightarrow> failed
                              | Some bufs \<Rightarrow> resolve_stage e cfg pid m import_calls bufs)))"
    proof (cases "scan_import_calls e ?a buf")
      case (Returns ics)
      let ?r = "read_sections e m img (vmp_sections cfg) [(?a, buf)]"
      have sc: "returns e (ScanImportCalls ?a buf)"
        using Returns by (simp add: returned_def)
      have "shape e (after (fst ?r) (case snd ?r of None \<Rightarrow> failed
                                      | Some bufs \<Rightarrow> resolve_stage e cfg pid m ics bufs))"
      proof (cases "snd ?r")
        case None
        with read_sections_events(1) [of e m img "vmp_sections cfg" "[(?a, buf)]"]
        show ?thesis by simp
      next
        case (Some bufs)
        with read_sections_events(2) [of e m img "vmp_sections cfg" "[(?a, buf)]"]
        show ?thesis by (auto intro!: shape_after shape_resolve)
      qed
      then have "shape e (after [(ScanImportCalls ?a buf, True)]
                   (after (fst ?r) (case snd ?r of None \<Rightarrow> failed
                                      | Some bufs \<Rightarrow> resolve_stage e cfg pid m ics bufs)))"
        using sc by (intro shape_after1) simp_all
      then show ?thesis
        using Returns by (simp add: Let_def after_def)
    next
      case (Throws what)
      then show ?thesis
        by (auto simp: terminated_def truthful_def returned_def intro!: shape_failing_call)
    next
      case ThrowsOther
      then show ?thesis
        by (auto simp: terminated_def truthful_def returned_def intro!: shape_failing_call)
    qed
    have "shape e (after [(Read ?a ?n, True)] (case scan_import_calls e ?a buf of
                     Throws what \<Rightarrow> after [(ScanImportCalls ?a buf, False)] terminated
                   | ThrowsOther \<Rightarrow> after [(ScanImportCalls ?a buf, False)] terminated
                   | Returns import_calls \<Rightarrow>
                       (let r = read_sections e m img (vmp_sections cfg) [(?a, buf)]
                        in after ((ScanImportCalls ?a buf, True) # fst r)
                             (case snd r of
                                None \<Rightarrow> failed
                              | Some bufs \<Rightarrow> resolve_stage e cfg pid m import_calls bufs))))"
      using scanned rd by (intro shape_after1) simp_all
    then show ?thesis
      using Some rd by (simp add: read_stage_def Let_def)
  qed
qed

lemma shape_context: "shape e (context_stage e cfg pid m img b)"
  unfolding context_stage_def
  by (auto split: outcome.splits
      intro!: shape_after1 shape_read shape_failing_call
      simp: failed_def terminated_def truthful_def returned_def caught_def)

lemma shape_switch: "shape e (machine_switch e cfg pid m img)"
  unfolding machine_switch_def
  by (auto split: machine_id_t.splits intro!: shape_context shape_failed0)

lemma startup_aborts:
  "parse_toml_aborts e argv \<Longrightarrow> startup e argv = ([], Inl Terminated)"
  by (auto simp: parse_toml_aborts_def startup_def split: sum.splits outcome.splits)

lemma startup_events:
  "\<not> parse_toml_aborts e argv \<Longrightarrow> snd (startup e argv) = Inl stopped \<Longrightarrow>
     stopped = Returned EXIT_FAILURE \<and> shape e (after (fst (startup e argv)) failed)"
  "snd (startup e argv) = Inr t \<Longrightarrow>
     list_all snd (fst (startup e argv)) \<and> no_dump (fst (startup e argv)) \<and>
     list_all (truthful e) (fst (startup e argv)) \<and> succeeded Attach_call (fst (startup e argv))"
proof -
  have fail1: "shape e (after [(c, False)] (Returned EXIT_FAILURE, []))"
    if "truthful e (c, False)" "on_failure e c = Returned EXIT_FAILURE" for c
    using that by (intro shape_failing_call) simp_all
  have fail2: "shape e (after [ev, (c, False)] (Returned EXIT_FAILURE, []))"
    if "snd ev" "\<not> is_dump (fst ev)" "truthful e ev" "truthful e (c, False)"
       "on_failure e c = Returned EXIT_FAILURE" for ev c
  proof -
    have "shape e (after [ev] (after [(c, False)] (Returned EXIT_FAILURE, [])))"
      using that by (intro shape_after shape_failing_call) simp_all
    then show ?thesis by (simp add: after_def)
  qed
  have fail3: "shape e (after [ev, ev', (c, False)] (Returned EXIT_FAILURE, []))"
    if "snd ev" "\<not> is_dump (fst ev)" "truthful e ev"
       "snd ev'" "\<not> is_dump (fst ev')" "truthful e ev'" "truthful e (c, False)"
       "on_failure e c = Returned EXIT_FAILURE" for ev ev' c
  proof -
    have "shape e (after [ev, ev'] (after [(c, False)] (Returned EXIT_FAILURE, [])))"
      using that by (intro shape_after shape_failing_call) simp_all
    then show ?thesis by (simp add: after_def)
  qed
  have fail0: "shape e (after [] (Returned EXIT_FAILURE, []))"
    using shape_failed0 [of e] by (simp add: after_def failed_def)
  show "\<not> parse_toml_aborts e argv \<Longrightarrow> snd (startup e argv) = Inl stopped \<Longrightarrow>
     stopped = Returned EXIT_FAILURE \<and> shape e (after (fst (startup e argv)) failed)"
    unfolding startup_def failed_def parse_toml_aborts_def
    by (auto split: sum.splits option.splits if_splits outcome.splits
        intro!: fail0 fail1 fail2 fail3 simp: truthful_def)
  show "snd (startup e argv) = Inr t \<Longrightarrow>
     list_all snd (fst (startup e argv)) \<and> no_dump (fst (startup e argv)) \<and>
     list_all (truthful e) (fst (startup e argv)) \<and> succeeded Attach_call (fst (startup e argv))"
    by (auto simp: startup_def truthful_def
        split: sum.splits option.splits if_splits outcome.splits)
qed

lemma main_aborts:
  "parse_toml_aborts e argv \<Longrightarrow> main e argv = (Terminated, [])"
  by (simp add: main_def startup_aborts after_def)

lemma shape_main: "\<not> parse_toml_aborts e argv \<Longrightarrow> shape e (main e argv)"
proof (cases "startup e argv")
  case (Pair evs r)
  assume na: "\<not> parse_toml_aborts e argv"
  show ?thesis
  proof (cases r)
    case (Inl stopped)
    with Pair startup_events(1) [OF na, of stopped] show ?thesis
      by (simp add: main_def failed_def)
  next
    case (Inr t)
    obtain cfg pid m img where t: "t = (cfg, pid, m, img)" by (cases t) auto
    from Pair Inr startup_events(2) [of e argv t]
    have "list_all snd evs \<and> no_dump evs \<and> list_all (truthful e) evs" by simp
    then have "shape e (after evs (machine_switch e cfg pid m img))"
      by (intro shape_after shape_switch) simp_all
    with Pair Inr t show ?thesis by (simp add: main_def)
  qed
qed

subsection \<open>A run that reaches the dump went through every stage\<close>











subsection \<open>The pipeline calls of every stage are a prefix of those of the text\<close>

lemma pipeline_calls_after:
  "pipeline_calls (after evs r) =
     map name_of (filter is_pipeline_call (map fst evs)) @ pipeline_calls r"
  by (simp add: pipeline_calls_def)

lemma pipeline_calls_nil [simp]:
  "pipeline_calls (c, []) = []" "pipeline_calls failed = []" "pipeline_calls terminated = []"
  by (simp_all add: pipeline_calls_def)

lemma read_sections_calls:
  "filter is_pipeline_call (map fst (fst (read_sections e m img ns bufs))) = []"
  by (induction ns arbitrary: bufs) (auto simp: Let_def split: option.splits)

lemma startup_calls: "filter is_pipeline_call (map fst (fst (startup e argv))) = []"
  by (auto simp: startup_def split: sum.splits option.splits outcome.splits)

lemma output_stage_calls:
  "prefix (pipeline_calls (output_stage e cfg m iat))
     [ConstructImage_call, InitializeMemoryPe_call, Reconstruct_call, DumpToFs_call]"
  by (simp add: output_stage_def pipeline_calls_after split: outcome.splits)

lemma iat_stage_calls:
  "\<exists>k. prefix (pipeline_calls (iat_stage e cfg pid m imps))
          (ConstructIat_call # replicate k AddImport_call @
           [ConstructImage_call, InitializeMemoryPe_call, Reconstruct_call, DumpToFs_call])"
proof (cases "modules_local_mapped e pid")
  case (Inl err)
  then show ?thesis by (simp add: iat_stage_def pipeline_calls_after)
next
  case (Inr mods)
  show ?thesis
  proof (cases "construct_iat e")
    case (Returns u)
    show ?thesis
    proof (cases "iat_rebuild_x (driver_add_import e) mods imps ([], [])")
      case (Inl evs)
      with rebuild_x_driver [where e = e and mods = mods and imps = imps and ?evs0.0 = "[]" and ?iat0.0 = "[]"]
      obtain new c where evs: "evs = new @ [(c, False)]" and new: "add_events e new"
        and c: "name_of c = AddImport_call"
        by auto
      from c have "is_pipeline_call c" by (cases c) simp_all
      with c evs add_events_names [OF new]
      have "pipeline_calls (iat_stage e cfg pid m imps) =
              ConstructIat_call # replicate (length new) AddImport_call @ [AddImport_call]"
        using Inr Returns Inl by (simp add: iat_stage_def pipeline_calls_after)
      then have "prefix (pipeline_calls (iat_stage e cfg pid m imps))
          (ConstructIat_call # replicate (Suc (length new)) AddImport_call @
           [ConstructImage_call, InitializeMemoryPe_call, Reconstruct_call, DumpToFs_call])"
        by (simp add: replicate_append_same)
      then show ?thesis ..
    next
      case r: (Inr st)
      with rebuild_x_driver [where e = e and mods = mods and imps = imps and ?evs0.0 = "[]" and ?iat0.0 = "[]"]
      have "add_events e (fst st)" by auto
      with add_events_names [of e "fst st"]
      have "pipeline_calls (iat_stage e cfg pid m imps) =
              ConstructIat_call # replicate (length (fst st)) AddImport_call @
              pipeline_calls (output_stage e cfg m (snd st))"
        using Inr Returns r by (simp add: iat_stage_def pipeline_calls_after)
      with output_stage_calls [of e cfg m "snd st"]
      have "prefix (pipeline_calls (iat_stage e cfg pid m imps))
          (ConstructIat_call # replicate (length (fst st)) AddImport_call @
           [ConstructImage_call, InitializeMemoryPe_call, Reconstruct_call, DumpToFs_call])"
        by simp
      then show ?thesis ..
    qed
  next
    case (Throws what)
    with Inr show ?thesis by (simp add: iat_stage_def pipeline_calls_after)
  next
    case ThrowsOther
    with Inr show ?thesis by (simp add: iat_stage_def pipeline_calls_after)
  qed
qed

lemma resolve_stage_calls:
  "\<exists>k. prefix (pipeline_calls (resolve_stage e cfg pid m ics bufs))
          (MapSections_call # ProcessImportCalls_call # ConstructIat_call #
           replicate k AddImport_call @
           [ConstructImage_call, InitializeMemoryPe_call, Reconstruct_call, DumpToFs_call])"
proof (cases "\<exists>imps. map_sections e bufs = Returns () \<and>
                      process_import_calls e ics (address m) = Returns imps")
  case True
  then obtain imps where "map_sections e bufs = Returns ()"
    "process_import_calls e ics (address m) = Returns imps" by blast
  with iat_stage_calls [of e cfg pid m imps] show ?thesis
    by (auto simp: resolve_stage_def pipeline_calls_after)
next
  case False
  then have "prefix (pipeline_calls (resolve_stage e cfg pid m ics bufs))
          (MapSections_call # ProcessImportCalls_call # ConstructIat_call #
           replicate 0 AddImport_call @
           [ConstructImage_call, InitializeMemoryPe_call, Reconstruct_call, DumpToFs_call])"
    by (auto simp: resolve_stage_def pipeline_calls_after split: outcome.splits)
  then show ?thesis ..
qed

lemma read_stage_calls:
  "\<exists>k. prefix (pipeline_calls (read_stage e cfg pid m img))
          (ScanImportCalls_call # MapSections_call # ProcessImportCalls_call # ConstructIat_call #
           replicate k AddImport_call @
           [ConstructImage_call, InitializeMemoryPe_call, Reconstruct_call, DumpToFs_call])"
proof -
  let ?tail = "\<lambda>k. MapSections_call # ProcessImportCalls_call # ConstructIat_call #
           replicate k AddImport_call @
           [ConstructImage_call, InitializeMemoryPe_call, Reconstruct_call, DumpToFs_call]"
  have "pipeline_calls (read_stage e cfg pid m img) = [] \<or>
        pipeline_calls (read_stage e cfg pid m img) = [ScanImportCalls_call] \<or>
        (\<exists>ics bufs. pipeline_calls (read_stage e cfg pid m img) =
           ScanImportCalls_call # pipeline_calls (resolve_stage e cfg pid m ics bufs))"
    by (auto simp: read_stage_def Let_def pipeline_calls_after read_sections_calls
        split: option.splits outcome.splits)
  then consider "pipeline_calls (read_stage e cfg pid m img) = []"
    | "pipeline_calls (read_stage e cfg pid m img) = [ScanImportCalls_call]"
    | ics bufs where "pipeline_calls (read_stage e cfg pid m img) =
           ScanImportCalls_call # pipeline_calls (resolve_stage e cfg pid m ics bufs)"
    by blast
  then show ?thesis
  proof cases
    case 1
    then show ?thesis by simp
  next
    case 2
    then show ?thesis by simp
  next
    case 3
    from resolve_stage_calls [of e cfg pid m ics bufs] obtain k where
      "prefix (pipeline_calls (resolve_stage e cfg pid m ics bufs)) (?tail k)" by blast
    with 3 have "prefix (pipeline_calls (read_stage e cfg pid m img)) (ScanImportCalls_call # ?tail k)"
      by simp
    then show ?thesis ..
  qed
qed

lemma context_stage_calls:
  "\<exists>k. prefix (pipeline_calls (context_stage e cfg pid m img b)) (calls_of_main k)"
proof -
  have "pipeline_calls (context_stage e cfg pid m img b) = [ConstructContext_call] \<or>
        pipeline_calls (context_stage e cfg pid m img b) =
          [ConstructContext_call, ComputeSections_call] \<or>
        pipeline_calls (context_stage e cfg pid m img b) =
          ConstructContext_call # ComputeSections_call # pipeline_calls (read_stage e cfg pid m img)"
    by (auto simp: context_stage_def pipeline_calls_after split: outcome.splits)
  moreover from read_stage_calls [of e cfg pid m img] obtain k where
    "prefix (pipeline_calls (read_stage e cfg pid m img))
          (ScanImportCalls_call # MapSections_call # ProcessImportCalls_call # ConstructIat_call #
           replicate k AddImport_call @
           [ConstructImage_call, InitializeMemoryPe_call, Reconstruct_call, DumpToFs_call])"
    by blast
  ultimately have "prefix (pipeline_calls (context_stage e cfg pid m img b)) (calls_of_main k)"
    by (auto simp: calls_of_main_def)
  then show ?thesis ..
qed

lemma machine_switch_calls:
  "\<exists>k. prefix (pipeline_calls (machine_switch e cfg pid m img)) (calls_of_main k)"
  using context_stage_calls [of e cfg pid m img]
  by (simp add: machine_switch_def split: machine_id_t.splits)

subsection \<open>The concrete run, stage by stage\<close>

lemma demo_startup:
  "startup (demo_env mach bad) [] =
     ([(Attach 7, True), (FindModule ''target.exe'', True), (FileLoad ''target.exe'', True)],
      Inr (demo_cfg, 7, demo_module, demo_image mach))"
  by (simp add: startup_def demo_env_def demo_cfg_def demo_module_def)

lemma demo_output_stage:
  "output_stage (demo_env mach bad) demo_cfg demo_module iat =
     (Returned EXIT_SUCCESS,
      [(ConstructImage 0x140000000, True), (InitializeMemoryPe 0x140000000 0x4000, True),
       (Reconstruct iat ''.iat'', True), (DumpToFs ''dump.exe'', True)])"
  by (simp add: output_stage_def demo_env_def demo_cfg_def demo_module_def after_def)

lemma demo_unresolved: "unresolved [demo_kernel32] (hd demo_imports)"
  by (simp add: unresolved_def demo_imports_def demo_kernel32_def export_matches_def)

lemma demo_iat_rebuild:
  "iat_rebuild log_import [demo_kernel32] demo_imports [] = [(''kernel32.dll'', ''Sleep'')]"
  by (simp add: import_step_def log_import_def demo_kernel32_def demo_imports_def)

lemma demo_iat_rebuild_x:
  "iat_rebuild_x (driver_add_import (demo_env mach bad)) [demo_kernel32] demo_imports ([], []) =
     Inr ([(AddImport [] ''kernel32.dll'' ''Sleep'', True)], [(''kernel32.dll'', ''Sleep'')])"
proof -
  have "driver_add_import (demo_env mach bad) mn en st =
          Inr (fst st @ [(AddImport (snd st) mn en, True)], log_import mn en (snd st))" for mn en st
    by (simp add: driver_add_import_def demo_env_def)
  then show ?thesis
    by (simp add: import_step_x_def log_import_def demo_kernel32_def demo_imports_def)
qed

lemma demo_iat_stage:
  "iat_stage (demo_env mach bad) demo_cfg 7 demo_module demo_imports =
     (Returned EXIT_SUCCESS,
      [(ModulesLocalMapped 7, True), (ConstructIat, True),
       (AddImport [] ''kernel32.dll'' ''Sleep'', True),
       (ConstructImage 0x140000000, True), (InitializeMemoryPe 0x140000000 0x4000, True),
       (Reconstruct [(''kernel32.dll'', ''Sleep'')] ''.iat'', True),
       (DumpToFs ''dump.exe'', True)])"
proof -
  have "modules_local_mapped (demo_env mach bad) 7 = Inr [demo_kernel32]"
    and "construct_iat (demo_env mach bad) = Returns ()"
    by (simp_all add: demo_env_def)
  then show ?thesis
    by (simp add: iat_stage_def demo_iat_rebuild_x demo_output_stage after_def
        del: iat_rebuild_x.simps)
qed

lemma demo_resolve_stage:
  "resolve_stage (demo_env mach bad) demo_cfg 7 demo_module cs bufs =
     (Returned EXIT_SUCCESS,
      [(MapSections bufs, True), (ProcessImportCalls cs 0x140000000, True),
       (ModulesLocalMapped 7, True), (ConstructIat, True),
       (AddImport [] ''kernel32.dll'' ''Sleep'', True),
       (ConstructImage 0x140000000, True), (InitializeMemoryPe 0x140000000 0x4000, True),
       (Reconstruct [(''kernel32.dll'', ''Sleep'')] ''.iat'', True),
       (DumpToFs ''dump.exe'', True)])"
proof -
  have "map_sections (demo_env mach bad) bufs = Returns ()"
    and "process_import_calls (demo_env mach bad) cs (address demo_module) = Returns demo_imports"
    and "address demo_module = 0x140000000"
    by (simp_all add: demo_env_def demo_module_def)
  then show ?thesis
    by (simp add: resolve_stage_def demo_iat_stage after_def)
qed

lemma demo_read_sections:
  "read_sections (demo_env mach bad) demo_module (demo_image mach) [''.vmp0''] bufs =
     (if bad = Suc 0 then ([(Read 0x140002000 1, False)], None)
      else ([(Read 0x140002000 1, True)], Some (bufs @ [(0x140002000, [0])])))"
  by (simp add: demo_env_def demo_module_def demo_image_def)

lemma demo_read_stage:
  "read_stage (demo_env mach 0) demo_cfg 7 demo_module (demo_image mach) =
     (Returned EXIT_SUCCESS,
      [(Read 0x140001000 2, True), (ScanImportCalls 0x140001000 [0, 0], True),
       (Read 0x140002000 1, True),
       (MapSections [(0x140001000, [0, 0]), (0x140002000, [0])], True),
       (ProcessImportCalls [0x140001000, 0x140001001] 0x140000000, True),
       (ModulesLocalMapped 7, True), (ConstructIat, True),
       (AddImport [] ''kernel32.dll'' ''Sleep'', True),
       (ConstructImage 0x140000000, True), (InitializeMemoryPe 0x140000000 0x4000, True),
       (Reconstruct [(''kernel32.dll'', ''Sleep'')] ''.iat'', True),
       (DumpToFs ''dump.exe'', True)])"
proof -
  have "find_section (demo_image mach) ''.text'' = Some \<lparr>virtual_size = 2, virtual_address = 0x1000\<rparr>"
    and "read (demo_env mach 0) 0x140001000 2 = Some [0, 0]"
    and "scan_import_calls (demo_env mach 0) 0x140001000 [0, 0] =
           Returns [0x140001000, 0x140001001]"
    and "address demo_module = 0x140000000"
    and "vmp_sections demo_cfg = [''.vmp0'']"
    by (simp_all add: demo_env_def demo_module_def demo_image_def demo_cfg_def numeral_2_eq_2)
  then show ?thesis
    by (simp add: read_stage_def Let_def demo_read_sections demo_resolve_stage after_def
        del: read_sections.simps)
qed


lemma demo_context_stage:
  "context_stage (demo_env mach bad) demo_cfg 7 demo_module (demo_image mach) b =
     after [(ConstructContext b, True),
            (ComputeSections [''.vmp0''] 0x140000000 (demo_image mach), True)]
       (read_stage (demo_env mach bad) demo_cfg 7 demo_module (demo_image mach))"
proof -
  have "construct_context (demo_env mach bad) b = Returns ()"
    and "compute_sections (demo_env mach bad) [''.vmp0''] 0x140000000 (demo_image mach) = Returns ()"
    and "address demo_module = 0x140000000"
    and "vmp_sections demo_cfg = [''.vmp0'']"
    by (simp_all add: demo_env_def demo_module_def demo_cfg_def)
  then show ?thesis
    by (simp add: context_stage_def after_def)
qed

lemma demo_main_ok:
  "mach = amd64 \<or> mach = i386 \<Longrightarrow>
   main (demo_env mach 0) [] =
     (Returned EXIT_SUCCESS,
      [(Attach 7, True), (FindModule ''target.exe'', True), (FileLoad ''target.exe'', True),
       (ConstructContext (mach = amd64), True),
       (ComputeSections [''.vmp0''] 0x140000000 (demo_image mach), True),
       (Read 0x140001000 2, True), (ScanImportCalls 0x140001000 [0, 0], True),
       (Read 0x140002000 1, True),
       (MapSections [(0x140001000, [0, 0]), (0x140002000, [0])], True),
       (ProcessImportCalls [0x140001000, 0x140001001] 0x140000000, True),
       (ModulesLocalMapped 7, True), (ConstructIat, True),
       (AddImport [] ''kernel32.dll'' ''Sleep'', True),
       (ConstructImage 0x140000000, True), (InitializeMemoryPe 0x140000000 0x4000, True),
       (Reconstruct [(''kernel32.dll'', ''Sleep'')] ''.iat'', True),
       (DumpToFs ''dump.exe'', True)])"
proof -
  assume "mach = amd64 \<or> mach = i386"
  moreover have "machine (demo_image mach) = mach" by (simp add: demo_image_def)
  ultimately show ?thesis
    by (auto simp: main_def demo_startup machine_switch_def demo_context_stage demo_read_stage
        after_def)
qed

lemma demo_main_other:
  "main (demo_env (other_machine 448) 0) [] =
     (Returned EXIT_FAILURE,
      [(Attach 7, True), (FindModule ''target.exe'', True), (FileLoad ''target.exe'', True)])"
proof -
  have "machine (demo_image (other_machine 448)) = other_machine 448"
    by (simp add: demo_image_def)
  then show ?thesis
    by (simp add: main_def demo_startup machine_switch_def after_def failed_def)
qed






section \<open>Facts about the stages modelled from the specification\<close>

subsection \<open>The trace\<close>

lemma trace_outcome:
  "(case trace fetch handlers budget s of
      Inr target \<Rightarrow>
        (\<exists>n s' handler. n < budget \<and> state_after fetch handlers n s = Some s' \<and>
            handlers (fetch s') = Some handler \<and> handler s' = Transfer target)
    | Inl TraceOverflowError \<Rightarrow> (\<exists>s'. state_after fetch handlers budget s = Some s')
    | Inl (UnsupportedOpcodeError opc) \<Rightarrow>
        (\<exists>n s'. n < budget \<and> state_after fetch handlers n s = Some s' \<and>
            fetch s' = opc \<and> handlers opc = None))"
proof (induction budget arbitrary: s)
  case 0
  show ?case by simp
next
  case (Suc budget)
  show ?case
  proof (cases "handlers (fetch s)")
    case None
    then show ?thesis
      by (auto intro!: exI [of _ 0])
  next
    case (Some handler)
    show ?thesis
    proof (cases "handler s")
      case (Transfer target)
      with Some show ?thesis
        by (auto intro!: exI [of _ 0])
    next
      case (Continue s')
      have step: "state_after fetch handlers (Suc n) s = state_after fetch handlers n s'" for n
        using Some Continue by simp
      have tr: "trace fetch handlers (Suc budget) s = trace fetch handlers budget s'"
        using Some Continue by simp
      show ?thesis
      proof (cases "trace fetch handlers budget s'")
        case (Inr target)
        with Suc.IH [of s'] obtain n s'' handler' where
          "n < budget" "state_after fetch handlers n s' = Some s''"
          "handlers (fetch s'') = Some handler'" "handler' s'' = Transfer target"
          by auto
        then have "Suc n < Suc budget \<and> state_after fetch handlers (Suc n) s = Some s'' \<and>
                   handlers (fetch s'') = Some handler' \<and> handler' s'' = Transfer target"
          by (simp add: step del: state_after.simps)
        then show ?thesis
          unfolding tr Inr by (simp del: state_after.simps) blast
      next
        case (Inl err)
        show ?thesis
        proof (cases err)
          case TraceOverflowError
          with Inl Suc.IH [of s'] show ?thesis
            unfolding tr by (simp add: step del: state_after.simps)
        next
          case (UnsupportedOpcodeError opc)
          with Inl Suc.IH [of s'] obtain n s'' where
            "n < budget" "state_after fetch handlers n s' = Some s''"
            "fetch s'' = opc" "handlers opc = None"
            by auto
          then have "Suc n < Suc budget \<and> state_after fetch handlers (Suc n) s = Some s'' \<and>
                     fetch s'' = opc \<and> handlers opc = None"
            by (simp add: step del: state_after.simps)
          then show ?thesis
            unfolding tr Inl UnsupportedOpcodeError by (simp del: state_after.simps) blast
        qed
      qed
    qed
  qed
qed


lemma process_outcome:
  "(case vmp_process_import_calls fetch handlers budget entry sites imps of
      Inr imps' \<Rightarrow> (\<exists>new. imps' = imps @ new \<and> map call_site_va new = sites)
    | Inl err \<Rightarrow> (\<exists>c\<in>set sites. trace fetch handlers budget (entry c) = Inl err))"
proof (induction sites arbitrary: imps)
  case Nil
  show ?case by simp
next
  case (Cons c cs)
  show ?case
  proof (cases "trace fetch handlers budget (entry c)")
    case (Inl err)
    then show ?thesis by simp
  next
    case (Inr target)
    let ?imps = "imps @ [\<lparr>call_site_va = c, import_address = target\<rparr>]"
    have eq: "vmp_process_import_calls fetch handlers budget entry (c # cs) imps =
              vmp_process_import_calls fetch handlers budget entry cs ?imps"
      using Inr by simp
    show ?thesis
    proof (cases "vmp_process_import_calls fetch handlers budget entry cs ?imps")
      case (Inl err)
      with Cons.IH [of ?imps] eq show ?thesis by auto
    next
      case r: (Inr imps')
      with Cons.IH [of ?imps] obtain new where
        "imps' = ?imps @ new" "map call_site_va new = cs"
        by auto
      then have "imps' = imps @ (\<lparr>call_site_va = c, import_address = target\<rparr> # new) \<and>
                 map call_site_va (\<lparr>call_site_va = c, import_address = target\<rparr> # new) = c # cs"
        by simp
      with r eq show ?thesis by (simp del: vmp_process_import_calls.simps)
    qed
  qed
qed

lemma demo_traces:
  "trace demo_fetch demo_handlers 3 0 = Inr 0x7FFE0010"
  "trace demo_fetch demo_handlers 3 2 = Inl TraceOverflowError"
  "trace demo_fetch demo_handlers 3 9 = Inl (UnsupportedOpcodeError 9)"
  "vmp_process_import_calls demo_fetch demo_handlers 3 (\<lambda>c. 0) [0x140001000, 0x140001001] [] =
     Inr [\<lparr>call_site_va = 0x140001000, import_address = 0x7FFE0010\<rparr>,
          \<lparr>call_site_va = 0x140001001, import_address = 0x7FFE0010\<rparr>]"
  by (simp_all add: demo_fetch_def demo_handlers_def numeral_3_eq_3)

subsection \<open>The scan\<close>

lemma scan_offsets_end:
  "length buf \<le> off \<Longrightarrow> scan_offsets decode in_mapped base buf off = []"
  by (simp add: scan_offsets.simps)

lemma scan_offsets_skip:
  "off < length buf \<Longrightarrow>
   decode (base + of_nat off) (drop off buf) = None \<or>
   (\<exists>len target. decode (base + of_nat off) (drop off buf) = Some (len, target) \<and>
      (len = 0 \<or> length buf < off + len)) \<Longrightarrow>
   scan_offsets decode in_mapped base buf off = scan_offsets decode in_mapped base buf (Suc off)"
  by (subst scan_offsets.simps) auto

lemma scan_offsets_insn:
  "off < length buf \<Longrightarrow> decode (base + of_nat off) (drop off buf) = Some (len, target) \<Longrightarrow>
   0 < len \<Longrightarrow> off + len \<le> length buf \<Longrightarrow>
   scan_offsets decode in_mapped base buf off =
     (case target of None \<Rightarrow> [] | Some t \<Rightarrow> if in_mapped t then [off] else [])
     @ scan_offsets decode in_mapped base buf (off + len)"
  by (subst scan_offsets.simps) auto

lemma insn_starts_end:
  "length buf \<le> off \<Longrightarrow> insn_starts decode base buf off = []"
  by (simp add: insn_starts.simps)

lemma insn_starts_skip:
  "off < length buf \<Longrightarrow>
   decode (base + of_nat off) (drop off buf) = None \<or>
   (\<exists>len target. decode (base + of_nat off) (drop off buf) = Some (len, target) \<and>
      (len = 0 \<or> length buf < off + len)) \<Longrightarrow>
   insn_starts decode base buf off = insn_starts decode base buf (Suc off)"
  by (subst insn_starts.simps) auto

lemma insn_starts_insn:
  "off < length buf \<Longrightarrow> decode (base + of_nat off) (drop off buf) = Some (len, target) \<Longrightarrow>
   0 < len \<Longrightarrow> off + len \<le> length buf \<Longrightarrow>
   insn_starts decode base buf off = off # insn_starts decode base buf (off + len)"
  by (subst insn_starts.simps) auto

text \<open>The scan keeps, of the instructions of the buffer, the calls into a mapped section.\<close>

lemma scan_offsets_filter:
  "scan_offsets decode in_mapped base buf off =
     filter (mapped_call_at decode in_mapped base buf) (insn_starts decode base buf off)"
proof (induction decode in_mapped base buf off rule: scan_offsets.induct)
  case (1 decode in_mapped base buf off)
  show ?case
  proof (cases "length buf \<le> off")
    case True
    then show ?thesis by (simp add: scan_offsets_end insn_starts_end)
  next
    case False
    then have lt: "off < length buf" by simp
    show ?thesis
    proof (cases "decode (base + of_nat off) (drop off buf)")
      case None
      with lt have "scan_offsets decode in_mapped base buf off =
                    scan_offsets decode in_mapped base buf (Suc off)"
        and "insn_starts decode base buf off = insn_starts decode base buf (Suc off)"
        by (simp_all add: scan_offsets_skip insn_starts_skip)
      with "1.IH"(1) [OF False None] show ?thesis by simp
    next
      case (Some r)
      obtain len target where r: "r = (len, target)" by (cases r)
      show ?thesis
      proof (cases "len = 0 \<or> length buf < off + len")
        case True
        with lt Some r have "scan_offsets decode in_mapped base buf off =
                             scan_offsets decode in_mapped base buf (Suc off)"
          and "insn_starts decode base buf off = insn_starts decode base buf (Suc off)"
          by (simp_all add: scan_offsets_skip insn_starts_skip)
        with "1.IH"(2) [OF False Some r [symmetric] True] show ?thesis by simp
      next
        case skip: False
        with lt Some r have eq: "scan_offsets decode in_mapped base buf off =
            (case target of None \<Rightarrow> [] | Some t \<Rightarrow> if in_mapped t then [off] else [])
            @ scan_offsets decode in_mapped base buf (off + len)"
          and st: "insn_starts decode base buf off = off # insn_starts decode base buf (off + len)"
          by (simp_all add: scan_offsets_insn insn_starts_insn)
        have here: "(case target of None \<Rightarrow> [] | Some t \<Rightarrow> if in_mapped t then [off] else []) =
                    filter (mapped_call_at decode in_mapped base buf) [off]"
          using Some r by (simp add: mapped_call_at_def split: option.splits)
        show ?thesis
          unfolding eq st here
          using "1.IH"(3) [OF False Some r [symmetric] skip] by simp
      qed
    qed
  qed
qed

lemma insn_starts_bounds:
  "x \<in> set (insn_starts decode base buf off) \<Longrightarrow> off \<le> x \<and> x < length buf"
proof (induction decode base buf off rule: insn_starts.induct)
  case (1 decode base buf off)
  show ?case
  proof (cases "length buf \<le> off")
    case True
    with "1.prems" show ?thesis by (simp add: insn_starts_end)
  next
    case False
    then have lt: "off < length buf" by simp
    show ?thesis
    proof (cases "decode (base + of_nat off) (drop off buf)")
      case None
      with lt have "insn_starts decode base buf off = insn_starts decode base buf (Suc off)"
        by (simp add: insn_starts_skip)
      with "1.prems" "1.IH"(1) [OF False None] show ?thesis by simp
    next
      case (Some r)
      obtain len target where r: "r = (len, target)" by (cases r)
      show ?thesis
      proof (cases "len = 0 \<or> length buf < off + len")
        case True
        with lt Some r have "insn_starts decode base buf off = insn_starts decode base buf (Suc off)"
          by (simp add: insn_starts_skip)
        with "1.prems" "1.IH"(2) [OF False Some r [symmetric] True] show ?thesis by simp
      next
        case skip: False
        with lt Some r have "insn_starts decode base buf off =
                             off # insn_starts decode base buf (off + len)"
          by (simp add: insn_starts_insn)
        with "1.prems" have "x = off \<or> x \<in> set (insn_starts decode base buf (off + len))"
          by auto
        with lt "1.IH"(3) [OF False Some r [symmetric] skip] show ?thesis by auto
      qed
    qed
  qed
qed

lemma insn_starts_sorted:
  "sorted_wrt (<) (insn_starts decode base buf off)"
proof (induction decode base buf off rule: insn_starts.induct)
  case (1 decode base buf off)
  show ?case
  proof (cases "length buf \<le> off")
    case True
    then show ?thesis by (simp add: insn_starts_end)
  next
    case False
    then have lt: "off < length buf" by simp
    show ?thesis
    proof (cases "decode (base + of_nat off) (drop off buf)")
      case None
      with lt have "insn_starts decode base buf off = insn_starts decode base buf (Suc off)"
        by (simp add: insn_starts_skip)
      with "1.IH"(1) [OF False None] show ?thesis by simp
    next
      case (Some r)
      obtain len target where r: "r = (len, target)" by (cases r)
      show ?thesis
      proof (cases "len = 0 \<or> length buf < off + len")
        case True
        with lt Some r have "insn_starts decode base buf off = insn_starts decode base buf (Suc off)"
          by (simp add: insn_starts_skip)
        with "1.IH"(2) [OF False Some r [symmetric] True] show ?thesis by simp
      next
        case skip: False
        with lt Some r have eq: "insn_starts decode base buf off =
                                 off # insn_starts decode base buf (off + len)"
          by (simp add: insn_starts_insn)
        have later: "off < x" if "x \<in> set (insn_starts decode base buf (off + len))" for x
          using insn_starts_bounds [OF that] skip by simp
        show ?thesis
          unfolding eq using "1.IH"(3) [OF False Some r [symmetric] skip] later by simp
      qed
    qed
  qed
qed

lemma scan_offsets_sorted:
  "sorted_wrt (<) (scan_offsets decode in_mapped base buf off)"
  unfolding scan_offsets_filter by (rule sorted_wrt_filter) (rule insn_starts_sorted)

lemma scan_offsets_bounds:
  "x \<in> set (scan_offsets decode in_mapped base buf off) \<Longrightarrow> off \<le> x \<and> x < length buf"
  unfolding scan_offsets_filter using insn_starts_bounds [of x decode base buf off] by simp

lemma sorted_wrt_map_nat:
  "sorted_wrt (<) xs \<Longrightarrow> sorted_wrt (<) (map (\<lambda>off. (base :: nat) + of_nat off) xs)"
  by (induction xs) auto

lemma sorted_wrt_map_addr:
  assumes "sorted_wrt (<) xs" "\<forall>x\<in>set xs. x < n" "unat (base :: addr) + n \<le> 2 ^ 64"
  shows "sorted_wrt (<) (map (\<lambda>off. base + of_nat off) xs)"
proof -
  have mono: "base + of_nat x < base + of_nat y" if "x < y" "y < n" for x y
  proof -
    have "unat (base + of_nat x :: addr) = unat base + x" and "unat (base + of_nat y :: addr) = unat base + y"
      using that assms(3) by (simp_all add: unat_word_ariths unat_of_nat)
    with that show ?thesis by (simp add: word_less_nat_alt)
  qed
  from assms(1,2) show ?thesis
    by (induction xs) (auto intro: mono)
qed

lemma scan_empty_iff:
  "vmp_scan_import_calls decode in_mapped base buf = [] \<longleftrightarrow>
   no_mapped_call decode in_mapped base buf"
  by (simp add: vmp_scan_import_calls_def scan_offsets_filter no_mapped_call_def
      filter_empty_conv list_all_iff)

lemma demo_scan_text:
  "vmp_scan_import_calls demo_decode (demo_in_mapped 0x140001010 0x140002000) (0x140001000 :: addr)
     [0x90, 0xE8, 0x10, 0, 0, 0, 0xE8, 0x20, 0, 0, 0] = [0x140001001, 0x140001006]"
  by code_simp

lemma demo_scan_text_nat:
  "vmp_scan_import_calls demo_decode (demo_in_mapped 0x140001010 0x140002000) (0x140001000 :: nat)
     [0x90, 0xE8, 0x10, 0, 0, 0, 0xE8, 0x20, 0, 0, 0] = [0x140001001, 0x140001006]"
  by (simp add: vmp_scan_import_calls_def scan_offsets.simps demo_decode_def demo_in_mapped_def)

lemma demo_scan_inside:
  "insn_starts demo_decode (0x140001000 :: nat) [0xE8, 0xE8, 0x10, 0, 0, 0x90] 0 = [0, 5]"
  "mapped_call_at demo_decode (demo_in_mapped 0x140001010 0x140001020) (0x140001000 :: nat)
     [0xE8, 0xE8, 0x10, 0, 0, 0x90] 1"
  "no_mapped_call demo_decode (demo_in_mapped 0x140001010 0x140001020) (0x140001000 :: nat)
     [0xE8, 0xE8, 0x10, 0, 0, 0x90]"
  by (simp_all add: no_mapped_call_def mapped_call_at_def insn_starts.simps demo_decode_def
      demo_in_mapped_def)

section \<open>The claims settled on the driver\<close>

text \<open>
  Claim C3. For every import record and every list of mapped modules, one pass of the
  rebuild loop adds the pair (module name, symbol name) of the first module in
  enumeration order, and of the first export within that module, whose export address
  equals the record's target minus the module's base; it adds nothing when there is no
  such export. In particular, when several modules export the address, the module that
  comes first in the sequence wins: a match in module \<open>i\<close> at export \<open>j\<close> with no match
  in an earlier module and none at an earlier export of module \<open>i\<close> is the resolved pair.
\<close>

theorem import_step_first_match_wins:
  "import_step add_import mods imp iat =
     (case first_match mods (import_address imp) of
        None \<Rightarrow> iat
      | Some (mn, en) \<Rightarrow> add_import mn en iat) \<and>
   (\<forall>i j. i < length mods \<and> j < length (pe_exports (mods ! i)) \<and>
          export_matches (mods ! i) (import_address imp) (pe_exports (mods ! i) ! j) \<and>
          (\<forall>k<i. \<not> module_matches (import_address imp) (mods ! k)) \<and>
          (\<forall>k<j. \<not> export_matches (mods ! i) (import_address imp) (pe_exports (mods ! i) ! k))
        \<longrightarrow> first_match mods (import_address imp) =
              Some (mapped_module_name (mods ! i), export_name (pe_exports (mods ! i) ! j)))"
  using import_step_first_match [of add_import mods imp iat] first_match_at [of _ mods]
  by blast

text \<open>
  The rule at work: \<^verbatim>\<open>kernel32.dll\<close> and \<^verbatim>\<open>kernelbase.dll\<close> both export the address
  \<open>0x7FFE0010\<close>, the first as its second and third export; the record goes to the first
  module and to its second export.
\<close>

theorem import_step_first_match_wins_witness:
  "import_step log_import [demo_first, demo_second] \<lparr>call_site_va = 0x1000, import_address = 0x7FFE0010\<rparr> []
     = [(''kernel32.dll'', ''Sleep'')] \<and>
   module_matches 0x7FFE0010 demo_second \<and>
   export_matches demo_first 0x7FFE0010 (pe_exports demo_first ! 2)"
proof -
  let ?imp = "\<lparr>call_site_va = 0x1000, import_address = 0x7FFE0010\<rparr> :: import_t"
  let ?mods = "[demo_first, demo_second]"
  note rule = import_step_first_match_wins [of log_import ?mods ?imp "[]"]
  have hit: "export_matches (?mods ! 0) (import_address ?imp) (pe_exports (?mods ! 0) ! 1)"
    by (simp add: export_matches_def demo_first_def)
  have earlier: "\<forall>k<1. \<not> export_matches (?mods ! 0) (import_address ?imp) (pe_exports (?mods ! 0) ! k)"
    by (simp add: export_matches_def demo_first_def)
  have "0 < length ?mods \<and> 1 < length (pe_exports (?mods ! 0))"
    by (simp add: demo_first_def)
  with hit earlier rule
  have "first_match ?mods (import_address ?imp) =
          Some (mapped_module_name (?mods ! 0), export_name (pe_exports (?mods ! 0) ! 1))"
    by blast
  then have "first_match ?mods (import_address ?imp) = Some (''kernel32.dll'', ''Sleep'')"
    by (simp add: demo_first_def)
  with rule have "import_step log_import ?mods ?imp [] = [(''kernel32.dll'', ''Sleep'')]"
    by (simp add: log_import_def)
  moreover have "module_matches 0x7FFE0010 demo_second"
    by (simp add: module_matches_def export_matches_def demo_second_def)
  moreover have "export_matches demo_first 0x7FFE0010 (pe_exports demo_first ! 2)"
    by (simp add: export_matches_def demo_first_def)
  ultimately show ?thesis by simp
qed

text \<open>
  Claim C1, as stated, fails on the driver. In the concrete run the resolver leaves two
  records; the target \<open>0x12345\<close> of the first matches no export of the one mapped module.
  The rebuild loop raises nothing: it goes on to the second record, the table handed to
  \<^verbatim>\<open>iat.reconstruct\<close> holds the single entry of that second record, the output is dumped
  and the run returns \<^verbatim>\<open>EXIT_SUCCESS\<close>.
\<close>

theorem unresolved_import_not_reported:
  "process_import_calls (demo_env amd64 0) [0x140001000, 0x140001001] 0x140000000 =
     Returns demo_imports \<and>
   modules_local_mapped (demo_env amd64 0) 7 = Inr [demo_kernel32] \<and>
   unresolved [demo_kernel32] (hd demo_imports) \<and>
   call_site_va (hd demo_imports) = 0x140001000 \<and>
   iat_rebuild log_import [demo_kernel32] demo_imports [] = [(''kernel32.dll'', ''Sleep'')] \<and>
   iat_rebuild_x (driver_add_import (demo_env amd64 0)) [demo_kernel32] demo_imports ([], []) =
     Inr ([(AddImport [] ''kernel32.dll'' ''Sleep'', True)], [(''kernel32.dll'', ''Sleep'')]) \<and>
   fst (main (demo_env amd64 0) []) = Returned EXIT_SUCCESS \<and>
   (Reconstruct [(''kernel32.dll'', ''Sleep'')] ''.iat'', True) \<in> set (snd (main (demo_env amd64 0) [])) \<and>
   (DumpToFs ''dump.exe'', True) \<in> set (snd (main (demo_env amd64 0) []))"
  using demo_main_ok [of amd64] demo_unresolved demo_iat_rebuild
    demo_iat_rebuild_x [of amd64 0]
  by (simp add: demo_env_def demo_imports_def del: iat_rebuild_x.simps)

text \<open>
  Claim C1, amended. For every import record whose target matches no export of any
  mapped module, the rebuild loop adds no import for that record and goes on with the
  records that follow: the rebuilt table is the one the loop builds without that record.
\<close>

theorem iat_rebuild_skips_unresolved:
  "unresolved mods r \<Longrightarrow>
     import_step add_import mods r iat = iat \<and>
     iat_rebuild add_import mods (xs @ r # ys) iat = iat_rebuild add_import mods (xs @ ys) iat"
  by (simp add: iat_rebuild_append import_step_first_match unresolved_first_match)

theorem iat_rebuild_skips_unresolved_witness:
  "unresolved [demo_kernel32] (hd demo_imports) \<and>
   import_step log_import [demo_kernel32] (hd demo_imports) [] = [] \<and>
   iat_rebuild log_import [demo_kernel32] ([] @ hd demo_imports # tl demo_imports) [] =
     iat_rebuild log_import [demo_kernel32] ([] @ tl demo_imports) [] \<and>
   iat_rebuild log_import [demo_kernel32] (tl demo_imports) [] = [(''kernel32.dll'', ''Sleep'')]"
proof -
  have "iat_rebuild log_import [demo_kernel32] (tl demo_imports) [] = [(''kernel32.dll'', ''Sleep'')]"
    by (simp add: import_step_def log_import_def demo_kernel32_def demo_imports_def)
  with iat_rebuild_skips_unresolved [OF demo_unresolved, of log_import "[]" "[]" "tl demo_imports"]
    demo_unresolved
  show ?thesis by simp
qed

text \<open>
  Claim C2, as stated, fails on the driver. In the concrete run the stages of the calls
  are, in order: Section Mapper, Import Call Scanner, Section Mapper, Import Resolver,
  IAT Reconstructor (twice), Output Image Builder (twice), IAT Reconstructor, Output
  Image Builder. The scanner runs before the sections are mapped, and the output image
  is constructed and initialized before \<^verbatim>\<open>iat.reconstruct\<close> runs; either of the two
  breaks the stated order.
\<close>

theorem stage_order_counterexample:
  "pipeline_calls (main (demo_env amd64 0) []) =
     [ConstructContext_call, ComputeSections_call, ScanImportCalls_call, MapSections_call,
      ProcessImportCalls_call, ConstructIat_call, AddImport_call, ConstructImage_call,
      InitializeMemoryPe_call, Reconstruct_call, DumpToFs_call] \<and>
   stages (main (demo_env amd64 0) []) =
     [Section_Mapper, Import_Call_Scanner, Section_Mapper, Import_Resolver, IAT_Reconstructor,
      IAT_Reconstructor, Output_Image_Builder, Output_Image_Builder, IAT_Reconstructor,
      Output_Image_Builder] \<and>
   \<not> spec_stage_order (main (demo_env amd64 0) [])"
  using demo_main_ok [of amd64]
  by (simp add: stages_def spec_stage_order_def pipeline_calls_def)

text \<open>
  Claim C2, amended. In every run the calls into the pipeline are, in this order,
  \<^verbatim>\<open>construct_context\<close>, \<^verbatim>\<open>compute_sections\<close>, \<^verbatim>\<open>scan_import_calls\<close>,
  \<^verbatim>\<open>map_sections\<close>, \<^verbatim>\<open>process_import_calls\<close>, the constructor of \<^verbatim>\<open>iat_t\<close>, the
  calls of \<^verbatim>\<open>add_import\<close> of the rebuild loop, the constructor of \<^verbatim>\<open>image_t\<close>,
  \<^verbatim>\<open>initialize_memory_pe\<close>, \<^verbatim>\<open>iat.reconstruct\<close> and \<^verbatim>\<open>dump_to_fs\<close>, or a prefix of
  that sequence when the run stops early; and every call of a run but its last has
  returned normally, so that a call is made only when all the calls before it are done.
\<close>

theorem pipeline_calls_prefix_of_main:
  "(\<exists>k. prefix (pipeline_calls (main e argv)) (calls_of_main k)) \<and>
   list_all snd (butlast (snd (main e argv)))"
proof
  show "\<exists>k. prefix (pipeline_calls (main e argv)) (calls_of_main k)"
  proof (cases "startup e argv")
    case (Pair evs r)
    have evs: "filter is_pipeline_call (map fst evs) = []"
      using startup_calls [of e argv] Pair by simp
    show ?thesis
    proof (cases r)
      case (Inl stopped)
      with Pair evs show ?thesis
        by (simp add: main_def pipeline_calls_after)
    next
      case (Inr t)
      obtain cfg pid m img where t: "t = (cfg, pid, m, img)"
        by (cases t) auto
      from machine_switch_calls [of e cfg pid m img] Pair Inr t evs show ?thesis
        by (simp add: main_def pipeline_calls_after)
    qed
  qed
next
  show "list_all snd (butlast (snd (main e argv)))"
  proof (cases "parse_toml_aborts e argv")
    case True
    then show ?thesis by (simp add: main_aborts)
  next
    case False
    from shape_main [OF False] show ?thesis
      unfolding shape_def by (auto simp: butlast_append list_all_iff dest: in_set_butlastD)
  qed
qed






section \<open>The claims settled on the stages modelled from the specification\<close>

text \<open>
  Claim C8. For both architecture values, \<^verbatim>\<open>construct_context\<close> called once, on the
  state in which no context exists, succeeds and leaves the context of that
  architecture with no imports; called a second time in the same run, on the state the
  first call left, it fails with a ConfigurationError and leaves the context as it was.
\<close>

theorem construct_context_once:
  "vmp_construct_context a None = (Inr (), Some \<lparr>is_64_bit = a, context_imports = []\<rparr>) \<and>
   vmp_construct_context b (snd (vmp_construct_context a None)) =
     (Inl ConfigurationError, snd (vmp_construct_context a None))"
  by (simp add: vmp_construct_context_def)

text \<open>
  Claim C5. For every call site the trace returns, and in one of three ways: with the
  target of a terminal transfer that the machine reaches in fewer steps than the
  budget; with TraceOverflowError, when all the steps of the budget went on; or with
  UnsupportedOpcodeError naming an opcode that a state reached within the budget
  fetches and for which the tracer has no handler. So does the whole of
  \<^verbatim>\<open>process_import_calls\<close>: it returns the imports grown by one record per call site,
  in order, or the error of the trace of one of its call sites.
\<close>

theorem import_trace_terminates:
  "(case trace fetch handlers budget s of
      Inr target \<Rightarrow>
        (\<exists>n s' handler. n < budget \<and> state_after fetch handlers n s = Some s' \<and>
            handlers (fetch s') = Some handler \<and> handler s' = Transfer target)
    | Inl TraceOverflowError \<Rightarrow> (\<exists>s'. state_after fetch handlers budget s = Some s')
    | Inl (UnsupportedOpcodeError opc) \<Rightarrow>
        (\<exists>n s'. n < budget \<and> state_after fetch handlers n s = Some s' \<and>
            fetch s' = opc \<and> handlers opc = None)) \<and>
   (case vmp_process_import_calls fetch handlers budget entry sites imps of
      Inr imps' \<Rightarrow> (\<exists>new. imps' = imps @ new \<and> map call_site_va new = sites)
    | Inl err \<Rightarrow> (\<exists>c\<in>set sites. trace fetch handlers budget (entry c) = Inl err))"
  by (intro conjI trace_outcome process_outcome)

text \<open>
  Claim C7. For every code buffer and base virtual address, the virtual addresses the
  scanner returns are strictly increasing, and the output is empty exactly when no
  instruction of the buffer is a call whose raw target lies in a mapped section. This
  is stated twice: over the addresses of the specification, which have no width, and
  over the 64-bit addresses of the driver, where the order holds for every buffer that
  lies inside the address space (base plus length at most \<open>2^64\<close>), as every buffer
  read from a process does.
\<close>

theorem scan_import_calls_increasing:
  fixes decode :: "nat decoder" and base :: nat
    and wdecode :: "addr decoder" and wbase :: addr
  shows
  "sorted_wrt (<) (vmp_scan_import_calls decode in_mapped base buf) \<and>
   (vmp_scan_import_calls decode in_mapped base buf = [] \<longleftrightarrow>
      no_mapped_call decode in_mapped base buf) \<and>
   (unat wbase + length wbuf \<le> 2 ^ 64 \<longrightarrow>
      sorted_wrt (<) (vmp_scan_import_calls wdecode wmapped wbase wbuf)) \<and>
   (vmp_scan_import_calls wdecode wmapped wbase wbuf = [] \<longleftrightarrow>
      no_mapped_call wdecode wmapped wbase wbuf)"
proof (intro conjI impI)
  show "sorted_wrt (<) (vmp_scan_import_calls decode in_mapped base buf)"
    unfolding vmp_scan_import_calls_def
    by (rule sorted_wrt_map_nat) (rule scan_offsets_sorted)
next
  show "vmp_scan_import_calls decode in_mapped base buf = [] \<longleftrightarrow>
        no_mapped_call decode in_mapped base buf"
    by (rule scan_empty_iff)
next
  assume "unat wbase + length wbuf \<le> 2 ^ 64"
  then show "sorted_wrt (<) (vmp_scan_import_calls wdecode wmapped wbase wbuf)"
    unfolding vmp_scan_import_calls_def
    using scan_offsets_sorted [of wdecode wmapped wbase wbuf 0]
      scan_offsets_bounds [of _ wdecode wmapped wbase wbuf 0]
    by (intro sorted_wrt_map_addr [where n = "length wbuf"]) auto
next
  show "vmp_scan_import_calls wdecode wmapped wbase wbuf = [] \<longleftrightarrow>
        no_mapped_call wdecode wmapped wbase wbuf"
    by (rule scan_empty_iff)
qed

text \<open>
  On the text section at \<open>0x140001000\<close>: a one-byte instruction and two calls into the
  mapped section give two increasing addresses, with either kind of address. In the
  second buffer the call at offset 0 leaves the mapped section, and its first operand
  byte, at offset 1, would itself decode to a call into the mapped section; offset 1
  is not the start of an instruction, and the output is empty.
\<close>

theorem scan_import_calls_increasing_witness:
  "vmp_scan_import_calls demo_decode (demo_in_mapped 0x140001010 0x140002000) (0x140001000 :: nat)
       [0x90, 0xE8, 0x10, 0, 0, 0, 0xE8, 0x20, 0, 0, 0] = [0x140001001, 0x140001006] \<and>
   sorted_wrt (<) (vmp_scan_import_calls demo_decode (demo_in_mapped 0x140001010 0x140002000)
       (0x140001000 :: nat) [0x90, 0xE8, 0x10, 0, 0, 0, 0xE8, 0x20, 0, 0, 0]) \<and>
   insn_starts demo_decode (0x140001000 :: nat) [0xE8, 0xE8, 0x10, 0, 0, 0x90] 0 = [0, 5] \<and>
   mapped_call_at demo_decode (demo_in_mapped 0x140001010 0x140001020) (0x140001000 :: nat)
       [0xE8, 0xE8, 0x10, 0, 0, 0x90] 1 \<and>
   no_mapped_call demo_decode (demo_in_mapped 0x140001010 0x140001020) (0x140001000 :: nat)
       [0xE8, 0xE8, 0x10, 0, 0, 0x90] \<and>
   vmp_scan_import_calls demo_decode (demo_in_mapped 0x140001010 0x140001020) (0x140001000 :: nat)
       [0xE8, 0xE8, 0x10, 0, 0, 0x90] = [] \<and>
   unat (0x140001000 :: addr) + length [0x90, 0xE8, 0x10, 0, 0, 0, 0xE8, 0x20, 0, 0, 0 :: byte] \<le> 2 ^ 64 \<and>
   vmp_scan_import_calls demo_decode (demo_in_mapped 0x140001010 0x140002000) (0x140001000 :: addr)
       [0x90, 0xE8, 0x10, 0, 0, 0, 0xE8, 0x20, 0, 0, 0] = [0x140001001, 0x140001006] \<and>
   sorted_wrt (<) (vmp_scan_import_calls demo_decode (demo_in_mapped 0x140001010 0x140002000)
       (0x140001000 :: addr) [0x90, 0xE8, 0x10, 0, 0, 0, 0xE8, 0x20, 0, 0, 0])"
proof -
  let ?p = "demo_in_mapped 0x140001010 0x140002000 :: nat \<Rightarrow> bool"
  let ?q = "demo_in_mapped 0x140001010 0x140001020 :: nat \<Rightarrow> bool"
  let ?p64 = "demo_in_mapped 0x140001010 0x140002000 :: addr \<Rightarrow> bool"
  let ?buf = "[0x90, 0xE8, 0x10, 0, 0, 0, 0xE8, 0x20, 0, 0, 0] :: byte list"
  let ?inside = "[0xE8, 0xE8, 0x10, 0, 0, 0x90] :: byte list"
  have fits: "unat (0x140001000 :: addr) + length ?buf \<le> 2 ^ 64"
    by simp
  note run = scan_import_calls_increasing
    [where decode = demo_decode and in_mapped = ?p and base = "0x140001000" and buf = ?buf
       and wdecode = demo_decode and wmapped = ?p64 and wbase = "0x140001000"
       and wbuf = ?buf]
  from run have 1: "sorted_wrt (<) (vmp_scan_import_calls demo_decode ?p 0x140001000 ?buf)"
    by blast
  from run fits
  have 2: "sorted_wrt (<) (vmp_scan_import_calls demo_decode ?p64 0x140001000 ?buf)"
    by blast
  from scan_import_calls_increasing
    [where decode = demo_decode and in_mapped = ?q and base = "0x140001000" and buf = ?inside
       and wdecode = demo_decode and wmapped = ?p64 and wbase = "0x140001000"
       and wbuf = ?buf]
    demo_scan_inside(3)
  have 3: "vmp_scan_import_calls demo_decode ?q 0x140001000 ?inside = []"
    by blast
  from fits 1 2 3 demo_scan_text demo_scan_text_nat demo_scan_inside show ?thesis
    by (intro conjI)
qed

end
